theory Spec2Isabelle
  imports Complex_Main "HOL-Library.Word"
begin

section \<open>The audio graph of the visualizer\<close>

text \<open>
  The component \<open>MusicVisualizer\<close> of \<open>src/app/page.tsx\<close> keeps its resources in React
  refs and its display state in React state. The model is one record holding the refs,
  the React state and the part of the browser the handlers act on: the connections of
  the Web Audio graph, the nodes the audio context has created, the capture streams,
  the outstanding \<open>getUserMedia\<close> promises and the scheduled animation frames.
\<close>

datatype node = Destination | FileSource nat | Analyser nat | Gain nat | MicSource nat

type_synonym connection = "node \<times> node"

datatype audio_context = AudioContext

datatype track_state = Live | Ended

datatype permission = Granted | Denied | Pending

datatype visual_mode = Bars | Circle

datatype error = DisconnectError | NotAllowedError | TypeError

record audio_element =
  el_paused :: bool
  el_currentTime :: real
  el_src :: string

record canvas =
  width :: nat
  height :: nat

record audio_file =
  name :: string
  blob :: string

record state =
  canvasRef :: "canvas option"
  audioContextRef :: "audio_context option"
  analyserRef :: "node option"
  audioElementRef :: "audio_element option"
  animationIdRef :: "nat option"
  micStreamRef :: "nat option"
  gainNodeRef :: "node option"
  fileSourceRef :: "node option"
  micSourceRef :: "node option"
  isPlaying :: bool
  fileName :: string
  isMicActive :: bool
  micPermission :: permission
  currentTime :: real
  duration :: real
  visualMode :: visual_mode
  connections :: "connection list"
  created :: "node list"
  streams :: "track_state list list"
  userMediaRequests :: nat
  userMediaPending :: nat
  pendingFrames :: "nat list"
  nextFrameId :: nat
  framesDrawn :: nat

text \<open>
  The browser decides whether a call of \<open>AudioNode.disconnect()\<close> raises; the handlers
  guard every such call with \<open>try\<close>/\<open>catch\<close>. A platform says, for a node and the
  connections at the time of the call, whether the call raises. \<open>web_audio\<close> is the
  platform of the Web Audio standard, where \<open>disconnect()\<close> without arguments raises
  nothing.
\<close>

type_synonym platform = "node \<Rightarrow> connection list \<Rightarrow> bool"

definition web_audio :: platform where
  "web_audio n cs = False"

text \<open>
  A statement runs on a state and either completes (\<open>Inr\<close>) or raises (\<open>Inl\<close>); a raise
  keeps the state reached so far, as the mutations a JavaScript function made before it
  threw stay in place.
\<close>

type_synonym outcome = "(error \<times> state) + state"

type_synonym stmt = "state \<Rightarrow> outcome"

definition ok :: "(state \<Rightarrow> state) \<Rightarrow> stmt" where
  "ok f s = Inr (f s)"

definition raise :: "error \<Rightarrow> stmt" where
  "raise e s = Inl (e, s)"

definition seq :: "stmt \<Rightarrow> stmt \<Rightarrow> stmt" where
  "seq a b s = (case a s of Inl x \<Rightarrow> Inl x | Inr s' \<Rightarrow> b s')"

definition try_catch :: "stmt \<Rightarrow> (error \<Rightarrow> stmt) \<Rightarrow> stmt" where
  "try_catch body handler s = (case body s of Inl (e, s') \<Rightarrow> handler e s' | Inr s' \<Rightarrow> Inr s')"

definition settle :: "outcome \<Rightarrow> state" where
  "settle r = (case r of Inl (e, s) \<Rightarrow> s | Inr s \<Rightarrow> s)"

subsection \<open>Browser primitives\<close>

text \<open>\<open>a.connect(b)\<close>: connecting a pair that is connected already changes nothing.\<close>

definition connect :: "node \<Rightarrow> node \<Rightarrow> state \<Rightarrow> state" where
  "connect a b s = s\<lparr>connections := List.insert (a, b) (connections s)\<rparr>"

text \<open>\<open>n.disconnect()\<close>: removes every outgoing connection of \<open>n\<close>, or raises.\<close>

definition disconnect :: "platform \<Rightarrow> node \<Rightarrow> stmt" where
  "disconnect p n s =
     (if p n (connections s) then Inl (DisconnectError, s)
      else Inr (s\<lparr>connections := filter (\<lambda>c. fst c \<noteq> n) (connections s)\<rparr>))"

text \<open>
  The pattern \<open>if (ref.current) { try { ref.current.disconnect(); } catch (e) { console.warn(..) } }\<close>
  that every handler uses.
\<close>

definition try_disconnect :: "platform \<Rightarrow> (state \<Rightarrow> node option) \<Rightarrow> stmt" where
  "try_disconnect p r s =
     (case r s of None \<Rightarrow> Inr s
      | Some n \<Rightarrow> try_catch (disconnect p n) (\<lambda>e. ok (\<lambda>s. s)) s)"

text \<open>
  \<open>if (animationIdRef.current) cancelAnimationFrame(animationIdRef.current)\<close>: the
  identifier 0 is falsy; the ref keeps its value.
\<close>

definition cancelAnimationFrame :: "nat \<Rightarrow> state \<Rightarrow> state" where
  "cancelAnimationFrame i s = s\<lparr>pendingFrames := removeAll i (pendingFrames s)\<rparr>"

definition cancel_pending :: "state \<Rightarrow> state" where
  "cancel_pending s =
     (case animationIdRef s of None \<Rightarrow> s
      | Some i \<Rightarrow> if i = 0 then s else cancelAnimationFrame i s)"

text \<open>
  \<open>URL.createObjectURL(file)\<close> gives a URL of the file's content; it is never the empty
  string. \<open>audio.load()\<close> runs the media element's load algorithm, which pauses the
  element and puts the playback position back to 0.
\<close>

definition createObjectURL :: "audio_file \<Rightarrow> string" where
  "createObjectURL f = ''blob:'' @ blob f"

definition load :: "audio_element \<Rightarrow> audio_element" where
  "load el = el\<lparr>el_paused := True, el_currentTime := 0\<rparr>"

subsection \<open>The frame loop\<close>

text \<open>
  \<open>draw\<close> (lines 371-390) returns at once without a canvas or an analyser; otherwise it
  draws one frame and asks for the next one, keeping the identifier of the request in
  \<open>animationIdRef\<close>. What a frame paints is \<open>drawBars\<close> and \<open>drawCircle\<close> below; here a
  frame is counted only. The canvas is taken to have a 2d context. The browser numbers
  the requests from 1.
\<close>

definition requestAnimationFrame :: "state \<Rightarrow> state" where
  "requestAnimationFrame s =
     s\<lparr>pendingFrames := pendingFrames s @ [nextFrameId s],
       animationIdRef := Some (nextFrameId s),
       nextFrameId := nextFrameId s + 1\<rparr>"

definition draw :: "state \<Rightarrow> state" where
  "draw s =
     (case canvasRef s of None \<Rightarrow> s
      | Some c \<Rightarrow>
         (case analyserRef s of None \<Rightarrow> s
          | Some a \<Rightarrow> requestAnimationFrame (s\<lparr>framesDrawn := framesDrawn s + 1\<rparr>)))"

text \<open>The browser runs a scheduled callback once, if it has not been cancelled.\<close>

definition animationFrame :: "nat \<Rightarrow> state \<Rightarrow> state" where
  "animationFrame i s =
     (if i \<in> set (pendingFrames s)
      then draw (s\<lparr>pendingFrames := removeAll i (pendingFrames s)\<rparr>)
      else s)"

text \<open>
  The effect of lines 393-408 runs after a render in which one of its dependencies
  changed: first the cleanup of the previous run, then the body.
\<close>

definition effect_cleanup :: "state \<Rightarrow> state" where
  "effect_cleanup s = cancel_pending s"

definition effect_body :: "state \<Rightarrow> state" where
  "effect_body s =
     (if isPlaying s \<and> (fileName s \<noteq> [] \<or> isMicActive s) then draw s
      else (case animationIdRef s of None \<Rightarrow> s
            | Some i \<Rightarrow> if i = 0 then s
                        else (cancelAnimationFrame i s)\<lparr>animationIdRef := None\<rparr>))"

definition rerender :: "state \<Rightarrow> state \<Rightarrow> state" where
  "rerender old new =
     (if (isPlaying old, fileName old, isMicActive old, visualMode old)
         = (isPlaying new, fileName new, isMicActive new, visualMode new)
      then new else effect_body (effect_cleanup new))"

subsection \<open>The handlers\<close>

text \<open>
  \<open>stopAudioFile\<close>, lines 226-259: the audio element is paused, rewound and detached
  from its source (when the ref holds it); the analyser and the gain node are
  disconnected, each under its own \<open>try\<close>; the display state is cleared and the
  scheduled frame cancelled.
\<close>

definition pause_and_detach :: "state \<Rightarrow> state" where
  "pause_and_detach s =
     (case audioElementRef s of None \<Rightarrow> s
      | Some el \<Rightarrow> s\<lparr>audioElementRef :=
                       Some (el\<lparr>el_paused := True, el_currentTime := 0, el_src := []\<rparr>)\<rparr>)"

definition clear_file_state :: "state \<Rightarrow> state" where
  "clear_file_state s = s\<lparr>fileName := [], isPlaying := False, currentTime := 0, duration := 0\<rparr>"

definition stopAudioFile :: "platform \<Rightarrow> stmt" where
  "stopAudioFile p =
     seq (ok pause_and_detach)
    (seq (try_disconnect p analyserRef)
    (seq (try_disconnect p gainNodeRef)
    (seq (ok clear_file_state)
         (ok cancel_pending))))"

text \<open>
  \<open>stopMicrophone\<close>, lines 201-223: every track of the stream is stopped and the stream
  dropped; the microphone source is disconnected under \<open>try\<close> and dropped.
\<close>

definition stop_tracks :: "state \<Rightarrow> state" where
  "stop_tracks s =
     (case micStreamRef s of None \<Rightarrow> s
      | Some i \<Rightarrow> s\<lparr>streams := (streams s)[i := map (\<lambda>t. Ended) (streams s ! i)],
                    micStreamRef := None\<rparr>)"

definition release_mic_source :: "platform \<Rightarrow> stmt" where
  "release_mic_source p s =
     (case micSourceRef s of None \<Rightarrow> Inr s
      | Some n \<Rightarrow> seq (try_catch (disconnect p n) (\<lambda>e. ok (\<lambda>s. s)))
                       (ok (\<lambda>s. s\<lparr>micSourceRef := None\<rparr>)) s)"

definition clear_mic_state :: "state \<Rightarrow> state" where
  "clear_mic_state s = s\<lparr>isMicActive := False, isPlaying := False\<rparr>"

definition stopMicrophone :: "platform \<Rightarrow> stmt" where
  "stopMicrophone p =
     seq (ok stop_tracks)
    (seq (release_mic_source p)
    (seq (ok clear_mic_state)
         (ok cancel_pending)))"

text \<open>
  \<open>initializeAudioContext\<close>, lines 58-110. The media element source is created when
  \<open>fileSourceRef\<close> is empty; the analyser is created on every call. A node created is
  the next entry of \<open>created\<close>. The audio context is taken to be running: the call of
  \<open>resume()\<close> on a suspended context is not modelled.
\<close>

definition ensure_context :: "state \<Rightarrow> state" where
  "ensure_context s =
     (case audioContextRef s of None \<Rightarrow> s\<lparr>audioContextRef := Some AudioContext\<rparr>
      | Some ctx \<Rightarrow> s)"

definition create_file_source :: "state \<Rightarrow> state" where
  "create_file_source s =
     (case fileSourceRef s of Some source \<Rightarrow> s
      | None \<Rightarrow> s\<lparr>created := created s @ [FileSource (length (created s))],
                  fileSourceRef := Some (FileSource (length (created s)))\<rparr>)"

definition connect_file_chain :: "state \<Rightarrow> state" where
  "connect_file_chain s =
     (case fileSourceRef s of None \<Rightarrow> s
      | Some source \<Rightarrow>
          (connect (Analyser (length (created s))) Destination
            (connect source (Analyser (length (created s)))
              (s\<lparr>created := created s @ [Analyser (length (created s))]\<rparr>)))
            \<lparr>analyserRef := Some (Analyser (length (created s)))\<rparr>)"

definition initializeAudioContext :: "platform \<Rightarrow> stmt" where
  "initializeAudioContext p =
     seq (ok ensure_context)
    (seq (try_disconnect p gainNodeRef)
    (seq (try_disconnect p analyserRef)
    (seq (ok create_file_source)
         (ok connect_file_chain))))"

text \<open>
  \<open>handleFileUpload\<close>, lines 113-144. \<open>isMicActive\<close> is read from the render the handler
  belongs to, that is from the state the handler starts in. The callback of the timer,
  which calls \<open>play()\<close> 100 ms later, is not part of the handler.
\<close>

definition stop_mic_if_active :: "platform \<Rightarrow> stmt" where
  "stop_mic_if_active p s =
     (if isMicActive s
      then seq (stopMicrophone p) (ok (\<lambda>s. s\<lparr>isMicActive := False\<rparr>)) s
      else Inr s)"

definition set_source :: "audio_file \<Rightarrow> audio_element \<Rightarrow> state \<Rightarrow> state" where
  "set_source f el s =
     s\<lparr>audioElementRef := Some (load (el\<lparr>el_src := createObjectURL f\<rparr>))\<rparr>"

definition play_file :: "platform \<Rightarrow> audio_file \<Rightarrow> stmt" where
  "play_file p f s =
     (case audioElementRef s of None \<Rightarrow> Inr s
      | Some el \<Rightarrow>
          seq (ok (set_source f el))
         (seq (initializeAudioContext p)
              (ok (\<lambda>s. s\<lparr>isPlaying := True\<rparr>))) s)"

definition handleFileUpload :: "platform \<Rightarrow> audio_file option \<Rightarrow> stmt" where
  "handleFileUpload p fo =
     (case fo of None \<Rightarrow> ok (\<lambda>s. s)
      | Some f \<Rightarrow>
         seq (stop_mic_if_active p)
        (seq (ok (\<lambda>s. s\<lparr>fileName := name f\<rparr>))
             (play_file p f)))"

text \<open>
  \<open>initializeMicAudioContext\<close>, lines 147-198, is asynchronous. It runs up to
  \<open>await navigator.mediaDevices.getUserMedia(..)\<close>, where it leaves a promise pending,
  and goes on when the promise settles; other handlers can run in between. When
  \<open>micStreamRef\<close> holds a stream no request is made and the function runs to its end at
  once. The whole body is inside one \<open>try\<close> whose \<open>catch\<close> records the permission as
  denied.
\<close>

datatype media_result = Stream nat | Rejected

definition mic_catch :: "error \<Rightarrow> stmt" where
  "mic_catch e = ok (\<lambda>s. s\<lparr>micPermission := Denied\<rparr>)"

definition mic_activate :: "state \<Rightarrow> state" where
  "mic_activate s = draw (s\<lparr>isMicActive := True, isPlaying := True\<rparr>)"

definition create_mic_analyser :: "state \<Rightarrow> state" where
  "create_mic_analyser s =
     s\<lparr>created := created s @ [Analyser (length (created s))],
       analyserRef := Some (Analyser (length (created s)))\<rparr>"

definition create_gain :: "state \<Rightarrow> state" where
  "create_gain s =
     (case gainNodeRef s of Some g \<Rightarrow> s
      | None \<Rightarrow> s\<lparr>created := created s @ [Gain (length (created s))],
                  gainNodeRef := Some (Gain (length (created s)))\<rparr>)"

definition request_user_media :: "state \<Rightarrow> state" where
  "request_user_media s =
     s\<lparr>userMediaRequests := userMediaRequests s + 1,
       userMediaPending := userMediaPending s + 1\<rparr>"

definition request_or_activate :: stmt where
  "request_or_activate s =
     (case micStreamRef s of None \<Rightarrow> Inr (request_user_media s)
      | Some i \<Rightarrow> Inr (mic_activate s))"

definition initializeMicAudioContext :: "platform \<Rightarrow> stmt" where
  "initializeMicAudioContext p =
     try_catch
       (seq (stopAudioFile p)
       (seq (ok ensure_context)
       (seq (try_disconnect p analyserRef)
       (seq (ok create_mic_analyser)
       (seq (ok create_gain)
            request_or_activate)))))
       mic_catch"

text \<open>
  The rest of \<open>initializeMicAudioContext\<close>, run when the promise settles: a rejection is
  raised at the \<open>await\<close>; a stream with \<open>n\<close> tracks is kept in \<open>micStreamRef\<close>, its
  source node created and connected to the analyser that \<open>analyserRef\<close> holds at that
  moment.
\<close>

definition keep_stream :: "nat \<Rightarrow> state \<Rightarrow> state" where
  "keep_stream n s =
     s\<lparr>streams := streams s @ [replicate n Live],
       micStreamRef := Some (length (streams s)),
       micPermission := Granted\<rparr>"

definition connect_mic_source :: stmt where
  "connect_mic_source s =
     (case analyserRef s of
        None \<Rightarrow> raise TypeError (s\<lparr>created := created s @ [MicSource (length (created s))]\<rparr>)
      | Some a \<Rightarrow>
          Inr ((connect (MicSource (length (created s))) a
                 (s\<lparr>created := created s @ [MicSource (length (created s))]\<rparr>))
                 \<lparr>micSourceRef := Some (MicSource (length (created s)))\<rparr>))"

definition attach_stream :: "nat \<Rightarrow> stmt" where
  "attach_stream n =
     seq (ok (keep_stream n))
    (seq connect_mic_source
         (ok mic_activate))"

definition userMediaSettled :: "media_result \<Rightarrow> stmt" where
  "userMediaSettled r s =
     (if userMediaPending s = 0 then Inr s
      else try_catch
             (case r of Rejected \<Rightarrow> raise NotAllowedError | Stream n \<Rightarrow> attach_stream n)
             mic_catch
             (s\<lparr>userMediaPending := userMediaPending s - 1\<rparr>))"

subsection \<open>Events\<close>

datatype event =
    LoadFile audio_file
  | StartMicrophone
  | UserMedia media_result
  | StopMicrophone
  | StopFile
  | AnimationFrame nat

definition handler :: "platform \<Rightarrow> event \<Rightarrow> stmt" where
  "handler p ev =
     (case ev of
        LoadFile f \<Rightarrow> handleFileUpload p (Some f)
      | StartMicrophone \<Rightarrow> initializeMicAudioContext p
      | UserMedia r \<Rightarrow> userMediaSettled r
      | StopMicrophone \<Rightarrow> stopMicrophone p
      | StopFile \<Rightarrow> stopAudioFile p
      | AnimationFrame i \<Rightarrow> ok (animationFrame i))"

text \<open>An event runs its handler; React then renders and runs the effect.\<close>

definition dispatch :: "platform \<Rightarrow> event \<Rightarrow> state \<Rightarrow> state" where
  "dispatch p ev s = rerender s (settle (handler p ev s))"

fun run :: "platform \<Rightarrow> event list \<Rightarrow> state \<Rightarrow> state" where
  "run p [] s = s"
| "run p (ev # evs) s = run p evs (dispatch p ev s)"

text \<open>The state after the component has mounted: the canvas and the audio element exist.\<close>

definition mounted :: "canvas \<Rightarrow> state" where
  "mounted c =
     \<lparr>canvasRef = Some c, audioContextRef = None, analyserRef = None,
      audioElementRef = Some \<lparr>el_paused = True, el_currentTime = 0, el_src = []\<rparr>,
      animationIdRef = None, micStreamRef = None, gainNodeRef = None,
      fileSourceRef = None, micSourceRef = None,
      isPlaying = False, fileName = [], isMicActive = False, micPermission = Pending,
      currentTime = 0, duration = 0, visualMode = Bars,
      connections = [], created = [], streams = [],
      userMediaRequests = 0, userMediaPending = 0,
      pendingFrames = [], nextFrameId = 1, framesDrawn = 0\<rparr>"

text \<open>
  What the page shows (lines 544-549): microphone mode when \<open>isMicActive\<close>, file mode
  when a file name is set, idle otherwise.
\<close>

datatype mode = Idle | FileActive | MicActive

definition mode_of :: "state \<Rightarrow> mode" where
  "mode_of s = (if isMicActive s then MicActive else if fileName s \<noteq> [] then FileActive else Idle)"

section \<open>The spectrum renderer\<close>

text \<open>
  \<open>drawBars\<close> (lines 279-302) and \<open>drawCircle\<close> (lines 305-368) paint one snapshot of
  the analyser, a \<open>Uint8Array\<close>, on the canvas. The model returns the drawing calls in
  order, each with the style in force. JavaScript numbers are modelled as real
  numbers: rounding is not modelled. A division by 0 gives \<open>Infinity\<close> or \<open>NaN\<close> in
  JavaScript and 0 in HOL; the model marks it by \<open>DivisionByZero\<close> instead.
  \<open>reduce\<close> without an initial value raises a \<open>TypeError\<close> on an empty array.
\<close>

datatype render_error = DivisionByZero | ReduceOfEmptyArray

datatype style = Css string | Hsl real real real | Rgba real real real real

datatype draw_cmd =
    FillRect style real real real real
  | StrokeArc style real real real real real real
  | StrokeLine style real real real real real
  | FillArc style real real real real real

text \<open>
  \<open>FillRect style x y w h\<close>; \<open>StrokeArc style lineWidth x y radius startAngle endAngle\<close>;
  \<open>StrokeLine style lineWidth x0 y0 x1 y1\<close>; \<open>FillArc style x y radius startAngle endAngle\<close>.
  The analyser has \<open>fftSize = 256\<close>, so a snapshot has 128 bins.
\<close>

definition fftSize :: nat where
  "fftSize = 256"

definition frequencyBinCount :: nat where
  "frequencyBinCount = fftSize div 2"

text \<open>An element of the \<open>Uint8Array\<close> read as a number.\<close>

definition magnitude :: "8 word \<Rightarrow> real" where
  "magnitude v = real (unat v)"

definition barWidth :: "canvas \<Rightarrow> 8 word list \<Rightarrow> real" where
  "barWidth c dataArray = (real (width c) / real (length dataArray)) * 2.5"

definition barHeight :: "canvas \<Rightarrow> 8 word \<Rightarrow> real" where
  "barHeight c v = (magnitude v / 255) * (real (height c) * 0.8)"

definition hue :: "nat \<Rightarrow> nat \<Rightarrow> real" where
  "hue i n = (real i / real n) * 360"

function drawBars_loop :: "canvas \<Rightarrow> 8 word list \<Rightarrow> nat \<Rightarrow> real \<Rightarrow> draw_cmd list" where
  "drawBars_loop c dataArray i x =
     (if i < length dataArray
      then FillRect (Hsl (hue i (length dataArray)) 100 50)
             x (real (height c) - barHeight c (dataArray ! i))
             (barWidth c dataArray) (barHeight c (dataArray ! i))
         # FillRect (Hsl (hue i (length dataArray)) 100 30)
             x (real (height c) - barHeight c (dataArray ! i) - 2)
             (barWidth c dataArray) 2
         # drawBars_loop c dataArray (i + 1) (x + barWidth c dataArray + 1)
      else [])"
  by pat_completeness auto
termination
  by (relation "measure (\<lambda>(c, dataArray, i, x). length dataArray - i)") auto

definition clear_canvas :: "canvas \<Rightarrow> draw_cmd" where
  "clear_canvas c = FillRect (Css ''#000000'') 0 0 (real (width c)) (real (height c))"

definition drawBars :: "canvas \<Rightarrow> 8 word list \<Rightarrow> render_error + draw_cmd list" where
  "drawBars c dataArray =
     (if length dataArray = 0 then Inl DivisionByZero
      else Inr (clear_canvas c # drawBars_loop c dataArray 0 0))"

definition centerX :: "canvas \<Rightarrow> real" where
  "centerX c = real (width c) / 2"

definition centerY :: "canvas \<Rightarrow> real" where
  "centerY c = real (height c) / 2"

definition radius :: "canvas \<Rightarrow> real" where
  "radius c = min (centerX c) (centerY c) * 0.4"

definition maxSpikeLength :: "canvas \<Rightarrow> real" where
  "maxSpikeLength c = min (centerX c) (centerY c) * 0.6"

definition frequency :: "8 word \<Rightarrow> real" where
  "frequency v = magnitude v / 255"

definition angle :: "nat \<Rightarrow> nat \<Rightarrow> real" where
  "angle i spikes = (real i / real spikes) * pi * 2"

definition spikeLength :: "canvas \<Rightarrow> 8 word \<Rightarrow> real" where
  "spikeLength c v = radius c + frequency v * maxSpikeLength c"

function drawCircle_loop :: "canvas \<Rightarrow> 8 word list \<Rightarrow> nat \<Rightarrow> draw_cmd list" where
  "drawCircle_loop c dataArray i =
     (if i < length dataArray
      then StrokeLine
             (Hsl (hue i (length dataArray)) 100 (50 + frequency (dataArray ! i) * 20))
             (2 + frequency (dataArray ! i) * 3)
             (centerX c + cos (angle i (length dataArray)) * radius c)
             (centerY c + sin (angle i (length dataArray)) * radius c)
             (centerX c + cos (angle i (length dataArray)) * spikeLength c (dataArray ! i))
             (centerY c + sin (angle i (length dataArray)) * spikeLength c (dataArray ! i))
         # drawCircle_loop c dataArray (i + 1)
      else [])"
  by pat_completeness auto
termination
  by (relation "measure (\<lambda>(c, dataArray, i). length dataArray - i)") auto

text \<open>\<open>dataArray.reduce((a, b) => a + b)\<close>: the sum, starting from the first element.\<close>

definition reduce_add :: "8 word list \<Rightarrow> render_error + real" where
  "reduce_add dataArray =
     (case dataArray of [] \<Rightarrow> Inl ReduceOfEmptyArray
      | v # vs \<Rightarrow> Inr (foldl (\<lambda>a b. a + magnitude b) (magnitude v) vs))"

definition glow :: "canvas \<Rightarrow> real \<Rightarrow> draw_cmd list" where
  "glow c avgFrequency =
     (let glowSize = 15 + avgFrequency * 10 in
      [FillArc (Rgba 0 255 255 (0.3 * avgFrequency)) (centerX c) (centerY c) (glowSize + 10) 0 (pi * 2),
       FillArc (Css ''#00ffff'') (centerX c) (centerY c) glowSize 0 (pi * 2),
       FillArc (Css ''#ffffff'') (centerX c) (centerY c) (glowSize * 0.5) 0 (pi * 2)])"

definition drawCircle :: "canvas \<Rightarrow> 8 word list \<Rightarrow> render_error + draw_cmd list" where
  "drawCircle c dataArray =
     (case reduce_add dataArray of Inl e \<Rightarrow> Inl e
      | Inr acc \<Rightarrow>
          Inr (clear_canvas c
             # StrokeArc (Rgba 255 255 255 0.1) 2 (centerX c) (centerY c) (radius c) 0 (pi * 2)
             # drawCircle_loop c dataArray 0
             @ glow c (acc / real (length dataArray) / 255)))"

text \<open>The dispatch of \<open>draw\<close> on the visual mode, lines 383-387.\<close>

definition render :: "visual_mode \<Rightarrow> canvas \<Rightarrow> 8 word list \<Rightarrow> render_error + draw_cmd list" where
  "render m c dataArray = (case m of Bars \<Rightarrow> drawBars c dataArray | Circle \<Rightarrow> drawCircle c dataArray)"

declare drawBars_loop.simps [simp del]

declare drawCircle_loop.simps [simp del]

section \<open>The renderer as the specification words it\<close>

text \<open>
  Bar mode: \<open>N\<close> slots of width \<open>w = width / N * 2.5\<close> with gaps of 1 unit; bar \<open>i\<close> has
  height \<open>magnitude[i] / 255 * height * 0.8\<close> and stands on the bottom edge, with hue
  \<open>i / N * 360\<close>, saturation 100 and lightness 50; a cap 2 units tall, of lightness 30
  and the same hue, sits on top of the bar.
\<close>

definition spec_bar_width :: "canvas \<Rightarrow> nat \<Rightarrow> real" where
  "spec_bar_width c N = real (width c) / real N * 2.5"

definition spec_bar_height :: "canvas \<Rightarrow> 8 word list \<Rightarrow> nat \<Rightarrow> real" where
  "spec_bar_height c magnitudes i = magnitude (magnitudes ! i) / 255 * real (height c) * 0.8"

definition spec_bar :: "canvas \<Rightarrow> 8 word list \<Rightarrow> nat \<Rightarrow> draw_cmd list" where
  "spec_bar c magnitudes i =
     [FillRect (Hsl (real i / real (length magnitudes) * 360) 100 50)
        (real i * (spec_bar_width c (length magnitudes) + 1))
        (real (height c) - spec_bar_height c magnitudes i)
        (spec_bar_width c (length magnitudes))
        (spec_bar_height c magnitudes i),
      FillRect (Hsl (real i / real (length magnitudes) * 360) 100 30)
        (real i * (spec_bar_width c (length magnitudes) + 1))
        (real (height c) - spec_bar_height c magnitudes i - 2)
        (spec_bar_width c (length magnitudes))
        2]"

section \<open>The graph manager as the specification words it\<close>


text \<open>
  The graph state: the refs of the audio graph, the connections, the nodes and streams
  created, the audio element and the source the page shows. The frame loop and the
  transport display (\<open>currentTime\<close>, \<open>duration\<close>) are not part of it.
\<close>

definition graph_state ::
  "state \<Rightarrow> audio_context option \<times> node option \<times> node option \<times> node option \<times> node option
     \<times> nat option \<times> connection list \<times> node list \<times> track_state list list
     \<times> audio_element option \<times> string \<times> bool \<times> bool \<times> permission" where
  "graph_state s =
     (audioContextRef s, analyserRef s, gainNodeRef s, fileSourceRef s, micSourceRef s,
      micStreamRef s, connections s, created s, streams s, audioElementRef s,
      fileName s, isPlaying s, isMicActive s, micPermission s)"

section \<open>Auxiliary definitions\<close>

text \<open>The calls one turn of each loop makes, as a function of the index.\<close>

definition bar_cmds :: "canvas \<Rightarrow> 8 word list \<Rightarrow> nat \<Rightarrow> draw_cmd list" where
  "bar_cmds c d k =
     [FillRect (Hsl (hue k (length d)) 100 50) (real k * (barWidth c d + 1))
        (real (height c) - barHeight c (d ! k)) (barWidth c d) (barHeight c (d ! k)),
      FillRect (Hsl (hue k (length d)) 100 30) (real k * (barWidth c d + 1))
        (real (height c) - barHeight c (d ! k) - 2) (barWidth c d) 2]"

definition spike_cmd :: "canvas \<Rightarrow> 8 word list \<Rightarrow> nat \<Rightarrow> draw_cmd" where
  "spike_cmd c d k =
     StrokeLine (Hsl (hue k (length d)) 100 (50 + frequency (d ! k) * 20))
       (2 + frequency (d ! k) * 3)
       (centerX c + cos (angle k (length d)) * radius c)
       (centerY c + sin (angle k (length d)) * radius c)
       (centerX c + cos (angle k (length d)) * spikeLength c (d ! k))
       (centerY c + sin (angle k (length d)) * spikeLength c (d ! k))"

text \<open>The connections left by a guarded \<open>disconnect()\<close> on the node a ref holds.\<close>

definition disconnected :: "platform \<Rightarrow> node option \<Rightarrow> connection list \<Rightarrow> connection list" where
  "disconnected p r cs =
     (case r of None \<Rightarrow> cs
      | Some n \<Rightarrow> if p n cs then cs else filter (\<lambda>c. fst c \<noteq> n) cs)"

text \<open>
  The values the conditional statements of the handlers leave in a field: the frames
  left by \<open>if (animationIdRef.current) cancelAnimationFrame(..)\<close>, the streams after the
  tracks of the stream in \<open>micStreamRef\<close> have been stopped, the audio element after
  \<open>stopAudioFile\<close>, and the node and the list of created nodes after a node has been
  created unless its ref held one.
\<close>

definition cancelled :: "nat option \<Rightarrow> nat list \<Rightarrow> nat list" where
  "cancelled r fs = (case r of None \<Rightarrow> fs | Some i \<Rightarrow> if i = 0 then fs else removeAll i fs)"

definition ended :: "nat option \<Rightarrow> track_state list list \<Rightarrow> track_state list list" where
  "ended r ss = (case r of None \<Rightarrow> ss | Some i \<Rightarrow> ss[i := map (\<lambda>t. Ended) (ss ! i)])"

definition detached :: "audio_element option \<Rightarrow> audio_element option" where
  "detached r = map_option (\<lambda>el. el\<lparr>el_paused := True, el_currentTime := 0, el_src := []\<rparr>) r"

definition file_source_of :: "node option \<Rightarrow> node list \<Rightarrow> node" where
  "file_source_of r cr = (case r of None \<Rightarrow> FileSource (length cr) | Some source \<Rightarrow> source)"

definition with_file_source :: "node option \<Rightarrow> node list \<Rightarrow> node list" where
  "with_file_source r cr = (case r of None \<Rightarrow> cr @ [FileSource (length cr)] | Some source \<Rightarrow> cr)"

definition gain_of :: "node option \<Rightarrow> node list \<Rightarrow> node" where
  "gain_of r cr = (case r of None \<Rightarrow> Gain (length cr) | Some g \<Rightarrow> g)"

definition with_gain :: "node option \<Rightarrow> node list \<Rightarrow> node list" where
  "with_gain r cr = (case r of None \<Rightarrow> cr @ [Gain (length cr)] | Some g \<Rightarrow> cr)"

text \<open>
  What holds of the nodes in every state the page can reach: the audio element is
  mounted; a node carries its position in \<open>created\<close>; the analyser in \<open>analyserRef\<close> has
  been created; the file sources created are the one in \<open>fileSourceRef\<close>, if any.
\<close>

fun is_file_source :: "node \<Rightarrow> bool" where
  "is_file_source (FileSource i) = True"
| "is_file_source n = False"

fun node_id :: "node \<Rightarrow> nat" where
  "node_id Destination = 0"
| "node_id (FileSource i) = i"
| "node_id (Analyser i) = i"
| "node_id (Gain i) = i"
| "node_id (MicSource i) = i"

definition graph_inv :: "state \<Rightarrow> bool" where
  "graph_inv s \<longleftrightarrow>
     audioElementRef s \<noteq> None
     \<and> list_all (\<lambda>n. node_id n < length (created s)) (created s)
     \<and> (case analyserRef s of None \<Rightarrow> True | Some a \<Rightarrow> a \<in> set (created s))
     \<and> filter is_file_source (created s) = (case fileSourceRef s of None \<Rightarrow> [] | Some b \<Rightarrow> [b])"

text \<open>
  Operations that run to completion: \<open>Start r\<close> is \<open>initializeMicAudioContext\<close> together
  with the settlement \<open>r\<close> of the request it makes, with no other event in between.
  \<open>exclusive\<close> is the mutual exclusion of the two sources: a connection to the
  destination exists in file mode only; a microphone source is connected to analysers
  only, and nothing leaves such an analyser; no state has both a connection to the
  destination and a connection from a microphone source. The predicates after it
  are the invariant that gives \<open>exclusive\<close> after operations that run to completion;
  \<open>awaiting\<close> is what holds while the request is pending.
\<close>

fun is_mic_source :: "node \<Rightarrow> bool" where
  "is_mic_source (MicSource i) = True"
| "is_mic_source n = False"

fun is_analyser :: "node \<Rightarrow> bool" where
  "is_analyser (Analyser i) = True"
| "is_analyser n = False"

datatype operation = Load audio_file | Start media_result | StopMic | Stop | Frame nat

fun events_of :: "operation \<Rightarrow> event list" where
  "events_of (Load f) = [LoadFile f]"
| "events_of (Start r) = [StartMicrophone, UserMedia r]"
| "events_of StopMic = [StopMicrophone]"
| "events_of Stop = [StopFile]"
| "events_of (Frame i) = [AnimationFrame i]"

fun named :: "operation \<Rightarrow> bool" where
  "named (Load f) = (name f \<noteq> [])"
| "named op = True"

definition exclusive :: "state \<Rightarrow> bool" where
  "exclusive s \<longleftrightarrow>
     list_all (\<lambda>c. snd c = Destination \<longrightarrow> mode_of s = FileActive) (connections s)
     \<and> list_all (\<lambda>c. is_mic_source (fst c) \<longrightarrow>
           is_analyser (snd c) \<and> list_all (\<lambda>c'. fst c' \<noteq> snd c) (connections s)) (connections s)
     \<and> \<not> (list_ex (\<lambda>c. snd c = Destination) (connections s)
          \<and> list_ex (\<lambda>c. is_mic_source (fst c)) (connections s))"

definition dest_ok :: "state \<Rightarrow> bool" where
  "dest_ok s \<longleftrightarrow>
     (\<forall>c \<in> set (connections s). snd c = Destination \<longrightarrow>
        Some (fst c) = analyserRef s \<and> \<not> isMicActive s \<and> fileName s \<noteq> [])"

definition mic_ok :: "state \<Rightarrow> bool" where
  "mic_ok s \<longleftrightarrow>
     (\<forall>c \<in> set (connections s). is_mic_source (fst c) \<longrightarrow>
        Some (fst c) = micSourceRef s \<and> isMicActive s \<and> is_analyser (snd c)
        \<and> (\<forall>c' \<in> set (connections s). fst c' \<noteq> snd c))"

definition known :: "state \<Rightarrow> bool" where
  "known s \<longleftrightarrow>
     (\<forall>c \<in> set (connections s). node_id (fst c) < length (created s))"

definition typed :: "state \<Rightarrow> bool" where
  "typed s \<longleftrightarrow>
     (\<forall>a. analyserRef s = Some a \<longrightarrow> is_analyser a)
     \<and> (micSourceRef s \<noteq> None \<longrightarrow> micStreamRef s \<noteq> None)"

definition base :: "state \<Rightarrow> bool" where
  "base s \<longleftrightarrow> graph_inv s \<and> dest_ok s \<and> mic_ok s \<and> known s \<and> typed s"

definition awaiting :: "state \<Rightarrow> bool" where
  "awaiting s \<longleftrightarrow>
     micSourceRef s = None \<and> micStreamRef s = None
     \<and> (\<exists>a. analyserRef s = Some a \<and> (\<forall>c \<in> set (connections s). fst c \<noteq> a))
     \<and> (\<forall>c \<in> set (connections s). snd c \<noteq> Destination)"

definition settled_inv :: "state \<Rightarrow> bool" where
  "settled_inv s \<longleftrightarrow> base s \<and> userMediaPending s \<le> 1 \<and> (userMediaPending s = 1 \<longrightarrow> awaiting s)"

text \<open>One frame loop: every scheduled frame is the one \<open>animationIdRef\<close> names.\<close>

definition one_loop :: "state \<Rightarrow> bool" where
  "one_loop s \<longleftrightarrow>
     (\<forall>i \<in> set (pendingFrames s). animationIdRef s = Some i \<and> 0 < i) \<and> 0 < nextFrameId s"






text \<open>Inputs for the examples.\<close>

definition example_canvas :: canvas where
  "example_canvas = \<lparr>width = 512, height = 384\<rparr>"

definition example_file :: audio_file where
  "example_file = \<lparr>name = ''a.mp3'', blob = ''1''\<rparr>"

definition other_file :: audio_file where
  "other_file = \<lparr>name = ''b.ogg'', blob = ''2''\<rparr>"

definition always_raises :: platform where
  "always_raises n cs = True"

section \<open>The loops of the renderer\<close>

lemma drawBars_loop_upt:
  "drawBars_loop c d i (real i * (barWidth c d + 1)) = concat (map (bar_cmds c d) [i..<length d])"
proof (induction "length d - i" arbitrary: i)
  case 0
  then show ?case by (subst drawBars_loop.simps) simp
next
  case (Suc n)
  then have lt: "i < length d" and n: "n = length d - Suc i" by auto
  have x: "real i * (barWidth c d + 1) + barWidth c d + 1 = real (Suc i) * (barWidth c d + 1)"
    by (simp add: algebra_simps)
  have "drawBars_loop c d (i + 1) (real i * (barWidth c d + 1) + barWidth c d + 1)
        = concat (map (bar_cmds c d) [Suc i..<length d])"
    using Suc.hyps(1) [OF n] x by simp
  with lt show ?case
    by (subst drawBars_loop.simps) (simp add: upt_conv_Cons bar_cmds_def)
qed

lemma drawBars_upt:
  "d \<noteq> [] \<Longrightarrow> drawBars c d = Inr (clear_canvas c # concat (map (bar_cmds c d) [0..<length d]))"
  using drawBars_loop_upt [of c d 0] by (simp add: drawBars_def)

lemma drawCircle_loop_upt:
  "drawCircle_loop c d i = map (spike_cmd c d) [i..<length d]"
proof (induction "length d - i" arbitrary: i)
  case 0
  then show ?case by (subst drawCircle_loop.simps) simp
next
  case (Suc n)
  then have lt: "i < length d" and n: "n = length d - Suc i" by auto
  have "drawCircle_loop c d (i + 1) = map (spike_cmd c d) [Suc i..<length d]"
    using Suc.hyps(1) [OF n] by simp
  with lt show ?case
    by (subst drawCircle_loop.simps) (simp add: upt_conv_Cons spike_cmd_def)
qed

lemma foldl_add_magnitude:
  "foldl (\<lambda>a b. a + magnitude b) a vs = a + sum_list (map magnitude vs)"
  by (induction vs arbitrary: a) auto

lemma drawCircle_upt:
  "d \<noteq> [] \<Longrightarrow> drawCircle c d = Inr (clear_canvas c
     # StrokeArc (Rgba 255 255 255 0.1) 2 (centerX c) (centerY c) (radius c) 0 (pi * 2)
     # map (spike_cmd c d) [0..<length d]
     @ glow c (sum_list (map magnitude d) / real (length d) / 255))"
  by (cases d) (simp_all add: drawCircle_def reduce_add_def foldl_add_magnitude drawCircle_loop_upt)

lemma magnitude_0: "magnitude 0 = 0"
  by (simp add: magnitude_def)

lemma magnitude_255: "magnitude 255 = 255"
  by (simp add: magnitude_def)

text \<open>A snapshot whose bins all hold the same value.\<close>

lemma drawBars_replicate:
  assumes "0 < n"
  shows "drawBars c (replicate n v) = Inr (clear_canvas c # concat (map (\<lambda>i.
     [FillRect (Hsl (hue i n) 100 50) (real i * (barWidth c (replicate n v) + 1))
        (real (height c) - barHeight c v) (barWidth c (replicate n v)) (barHeight c v),
      FillRect (Hsl (hue i n) 100 30) (real i * (barWidth c (replicate n v) + 1))
        (real (height c) - barHeight c v - 2) (barWidth c (replicate n v)) 2]) [0..<n]))"
proof -
  have eq: "map (bar_cmds c (replicate n v)) [0..<n] = map (\<lambda>i.
     [FillRect (Hsl (hue i n) 100 50) (real i * (barWidth c (replicate n v) + 1))
        (real (height c) - barHeight c v) (barWidth c (replicate n v)) (barHeight c v),
      FillRect (Hsl (hue i n) 100 30) (real i * (barWidth c (replicate n v) + 1))
        (real (height c) - barHeight c v - 2) (barWidth c (replicate n v)) 2]) [0..<n]"
    by (rule map_cong) (simp_all add: bar_cmds_def)
  have ne: "replicate n v \<noteq> []" using assms by simp
  show ?thesis
    unfolding drawBars_upt [OF ne] length_replicate eq by (rule refl)
qed

lemma drawCircle_replicate:
  assumes "0 < n"
  shows "drawCircle c (replicate n v) = Inr (clear_canvas c
     # StrokeArc (Rgba 255 255 255 0.1) 2 (centerX c) (centerY c) (radius c) 0 (pi * 2)
     # map (\<lambda>i. StrokeLine (Hsl (hue i n) 100 (50 + frequency v * 20)) (2 + frequency v * 3)
           (centerX c + cos (angle i n) * radius c) (centerY c + sin (angle i n) * radius c)
           (centerX c + cos (angle i n) * spikeLength c v)
           (centerY c + sin (angle i n) * spikeLength c v)) [0..<n]
     @ glow c (magnitude v / 255))"
proof -
  have eq: "map (spike_cmd c (replicate n v)) [0..<n] = map (\<lambda>i.
       StrokeLine (Hsl (hue i n) 100 (50 + frequency v * 20)) (2 + frequency v * 3)
           (centerX c + cos (angle i n) * radius c) (centerY c + sin (angle i n) * radius c)
           (centerX c + cos (angle i n) * spikeLength c v)
           (centerY c + sin (angle i n) * spikeLength c v)) [0..<n]"
    by (rule map_cong) (simp_all add: spike_cmd_def)
  have avg: "sum_list (map magnitude (replicate n v)) / real n / 255 = magnitude v / 255"
    using assms by (simp add: sum_list_replicate)
  have ne: "replicate n v \<noteq> []" using assms by simp
  show ?thesis
    unfolding drawCircle_upt [OF ne] length_replicate avg eq by (rule refl)
qed

text \<open>One turn of the bar loop paints what the specification describes.\<close>

lemma bar_cmds_spec: "d \<noteq> [] \<Longrightarrow> bar_cmds c d i = spec_bar c d i"
  by (simp add: bar_cmds_def spec_bar_def hue_def barWidth_def barHeight_def
      spec_bar_width_def spec_bar_height_def)

lemma frequencyBinCount_128: "frequencyBinCount = 128"
  by (simp add: frequencyBinCount_def fftSize_def)

section \<open>Statements that complete\<close>

lemma seq_ok: "seq (ok f) b s = b (f s)"
  by (simp add: seq_def ok_def)

lemma try_catch_disconnect:
  "try_catch (disconnect p n) (\<lambda>e. ok (\<lambda>s. s)) s
     = Inr (s\<lparr>connections := disconnected p (Some n) (connections s)\<rparr>)"
  by (simp add: try_catch_def disconnect_def ok_def disconnected_def)

lemma try_disconnect_Inr:
  "try_disconnect p r s = Inr (s\<lparr>connections := disconnected p (r s) (connections s)\<rparr>)"
  by (cases "r s") (simp_all add: try_disconnect_def try_catch_disconnect, simp add: disconnected_def)

lemma seq_try_disconnect:
  "seq (try_disconnect p r) b s = b (s\<lparr>connections := disconnected p (r s) (connections s)\<rparr>)"
  by (simp add: seq_def try_disconnect_Inr)

lemma cancel_pending_upd:
  "cancel_pending s = s\<lparr>pendingFrames := cancelled (animationIdRef s) (pendingFrames s)\<rparr>"
  by (simp add: cancel_pending_def cancelAnimationFrame_def cancelled_def split: option.splits)

lemma pause_and_detach_upd:
  "pause_and_detach s = s\<lparr>audioElementRef := detached (audioElementRef s)\<rparr>"
  by (simp add: pause_and_detach_def detached_def split: option.splits)

lemma stop_tracks_upd:
  "stop_tracks s = s\<lparr>streams := ended (micStreamRef s) (streams s), micStreamRef := None\<rparr>"
  by (simp add: stop_tracks_def ended_def split: option.splits)

lemma release_mic_source_Inr:
  "release_mic_source p s = Inr (s\<lparr>connections := disconnected p (micSourceRef s) (connections s),
      micSourceRef := None\<rparr>)"
  by (simp add: release_mic_source_def seq_def try_catch_disconnect ok_def disconnected_def
      split: option.splits)

lemma ensure_context_upd: "ensure_context s = s\<lparr>audioContextRef := Some AudioContext\<rparr>"
proof (cases "audioContextRef s")
  case None
  then show ?thesis by (simp add: ensure_context_def)
next
  case (Some ctx)
  then have "audioContextRef s = Some AudioContext" by (cases ctx) simp
  with Some show ?thesis by (simp add: ensure_context_def)
qed

lemma create_file_source_upd:
  "create_file_source s =
     s\<lparr>created := with_file_source (fileSourceRef s) (created s),
       fileSourceRef := Some (file_source_of (fileSourceRef s) (created s))\<rparr>"
  by (simp add: create_file_source_def with_file_source_def file_source_of_def split: option.splits)

lemma create_gain_upd:
  "create_gain s =
     s\<lparr>created := with_gain (gainNodeRef s) (created s),
       gainNodeRef := Some (gain_of (gainNodeRef s) (created s))\<rparr>"
  by (simp add: create_gain_def with_gain_def gain_of_def split: option.splits)

lemma draw_upd:
  "draw s =
     (if canvasRef s \<noteq> None \<and> analyserRef s \<noteq> None
      then s\<lparr>framesDrawn := framesDrawn s + 1,
             pendingFrames := pendingFrames s @ [nextFrameId s],
             animationIdRef := Some (nextFrameId s),
             nextFrameId := nextFrameId s + 1\<rparr>
      else s)"
  by (simp add: draw_def requestAnimationFrame_def split: option.splits)

text \<open>The handlers that stop a source.\<close>

lemma stopAudioFile_Inr:
  "stopAudioFile p s =
     Inr (s\<lparr>audioElementRef := detached (audioElementRef s),
            connections := disconnected p (gainNodeRef s) (disconnected p (analyserRef s) (connections s)),
            fileName := [], isPlaying := False, currentTime := 0, duration := 0,
            pendingFrames := cancelled (animationIdRef s) (pendingFrames s)\<rparr>)"
  by (simp add: stopAudioFile_def seq_ok seq_try_disconnect ok_def pause_and_detach_upd
      clear_file_state_def cancel_pending_upd)

lemma stopMicrophone_Inr:
  "stopMicrophone p s =
     Inr (s\<lparr>streams := ended (micStreamRef s) (streams s), micStreamRef := None,
            connections := disconnected p (micSourceRef s) (connections s),
            micSourceRef := None, isMicActive := False, isPlaying := False,
            pendingFrames := cancelled (animationIdRef s) (pendingFrames s)\<rparr>)"
  by (simp add: stopMicrophone_def seq_ok seq_def release_mic_source_Inr ok_def stop_tracks_upd
      clear_mic_state_def cancel_pending_upd)

text \<open>Loading a file.\<close>

lemma initializeAudioContext_Inr:
  "initializeAudioContext p s =
     Inr (s\<lparr>audioContextRef := Some AudioContext,
            fileSourceRef := Some (file_source_of (fileSourceRef s) (created s)),
            created := with_file_source (fileSourceRef s) (created s)
                       @ [Analyser (length (with_file_source (fileSourceRef s) (created s)))],
            connections :=
              List.insert (Analyser (length (with_file_source (fileSourceRef s) (created s))), Destination)
                (List.insert (file_source_of (fileSourceRef s) (created s),
                              Analyser (length (with_file_source (fileSourceRef s) (created s))))
                  (disconnected p (analyserRef s) (disconnected p (gainNodeRef s) (connections s)))),
            analyserRef := Some (Analyser (length (with_file_source (fileSourceRef s) (created s))))\<rparr>)"
  by (simp add: initializeAudioContext_def seq_ok seq_try_disconnect ok_def ensure_context_upd
      create_file_source_upd connect_file_chain_def connect_def)

lemma stop_mic_if_active_Inr:
  "stop_mic_if_active p s =
     Inr (if isMicActive s
          then s\<lparr>streams := ended (micStreamRef s) (streams s), micStreamRef := None,
                 connections := disconnected p (micSourceRef s) (connections s),
                 micSourceRef := None, isMicActive := False, isPlaying := False,
                 pendingFrames := cancelled (animationIdRef s) (pendingFrames s)\<rparr>
          else s)"
  by (simp add: stop_mic_if_active_def seq_def stopMicrophone_Inr ok_def)

lemma play_file_Inr:
  "play_file p f s =
     Inr (case audioElementRef s of None \<Rightarrow> s
          | Some el \<Rightarrow>
            s\<lparr>audioElementRef := Some (load (el\<lparr>el_src := createObjectURL f\<rparr>)),
              audioContextRef := Some AudioContext,
              fileSourceRef := Some (file_source_of (fileSourceRef s) (created s)),
              created := with_file_source (fileSourceRef s) (created s)
                         @ [Analyser (length (with_file_source (fileSourceRef s) (created s)))],
              connections :=
                List.insert (Analyser (length (with_file_source (fileSourceRef s) (created s))), Destination)
                  (List.insert (file_source_of (fileSourceRef s) (created s),
                                Analyser (length (with_file_source (fileSourceRef s) (created s))))
                    (disconnected p (analyserRef s) (disconnected p (gainNodeRef s) (connections s)))),
              analyserRef := Some (Analyser (length (with_file_source (fileSourceRef s) (created s)))),
              isPlaying := True\<rparr>)"
  by (simp add: play_file_def seq_ok seq_def initializeAudioContext_Inr ok_def set_source_def
      split: option.splits)

lemma handleFileUpload_Inr:
  "handleFileUpload p (Some f) s =
     play_file p f ((settle (stop_mic_if_active p s))\<lparr>fileName := name f\<rparr>)"
  by (simp add: handleFileUpload_def seq_def ok_def stop_mic_if_active_Inr settle_def)

text \<open>Starting the microphone.\<close>

lemma request_or_activate_Inr:
  "request_or_activate s =
     Inr (if micStreamRef s = None then request_user_media s else mic_activate s)"
  by (simp add: request_or_activate_def split: option.splits)

lemma initializeMicAudioContext_Inr:
  "initializeMicAudioContext p s =
     request_or_activate
       (s\<lparr>audioElementRef := detached (audioElementRef s),
          fileName := [], isPlaying := False, currentTime := 0, duration := 0,
          pendingFrames := cancelled (animationIdRef s) (pendingFrames s),
          audioContextRef := Some AudioContext,
          connections := disconnected p (analyserRef s)
             (disconnected p (gainNodeRef s) (disconnected p (analyserRef s) (connections s))),
          analyserRef := Some (Analyser (length (created s))),
          created := with_gain (gainNodeRef s) (created s @ [Analyser (length (created s))]),
          gainNodeRef := Some (gain_of (gainNodeRef s) (created s @ [Analyser (length (created s))]))\<rparr>)"
  by (simp add: initializeMicAudioContext_def try_catch_def seq_def stopAudioFile_Inr
      try_disconnect_Inr ok_def ensure_context_upd create_mic_analyser_def create_gain_upd
      request_or_activate_Inr)

text \<open>The promise settles.\<close>

lemma connect_mic_source_Some:
  "analyserRef s = Some a \<Longrightarrow>
     connect_mic_source s =
       Inr (s\<lparr>created := created s @ [MicSource (length (created s))],
              connections := List.insert (MicSource (length (created s)), a) (connections s),
              micSourceRef := Some (MicSource (length (created s)))\<rparr>)"
  by (simp add: connect_mic_source_def connect_def)

lemma userMediaSettled_Rejected:
  "userMediaSettled Rejected s =
     Inr (if userMediaPending s = 0 then s
          else s\<lparr>userMediaPending := userMediaPending s - 1, micPermission := Denied\<rparr>)"
  by (simp add: userMediaSettled_def try_catch_def raise_def mic_catch_def ok_def)

lemma userMediaSettled_Stream:
  "analyserRef s = Some a \<Longrightarrow> 0 < userMediaPending s \<Longrightarrow>
     userMediaSettled (Stream n) s =
       Inr (mic_activate
         (s\<lparr>userMediaPending := userMediaPending s - 1,
            streams := streams s @ [replicate n Live],
            micStreamRef := Some (length (streams s)),
            micPermission := Granted,
            created := created s @ [MicSource (length (created s))],
            connections := List.insert (MicSource (length (created s)), a) (connections s),
            micSourceRef := Some (MicSource (length (created s)))\<rparr>))"
  by (simp add: userMediaSettled_def try_catch_def attach_stream_def seq_def ok_def keep_stream_def
      connect_mic_source_Some)

lemma userMediaSettled_none:
  "userMediaPending s = 0 \<Longrightarrow> userMediaSettled r s = Inr s"
  by (simp add: userMediaSettled_def)


lemma settle_Inr: "settle (Inr s) = s"
  by (simp add: settle_def)

lemma rerender_fields:
  "canvasRef (rerender old new) = canvasRef new"
  "audioContextRef (rerender old new) = audioContextRef new"
  "analyserRef (rerender old new) = analyserRef new"
  "audioElementRef (rerender old new) = audioElementRef new"
  "micStreamRef (rerender old new) = micStreamRef new"
  "gainNodeRef (rerender old new) = gainNodeRef new"
  "fileSourceRef (rerender old new) = fileSourceRef new"
  "micSourceRef (rerender old new) = micSourceRef new"
  "isPlaying (rerender old new) = isPlaying new"
  "fileName (rerender old new) = fileName new"
  "isMicActive (rerender old new) = isMicActive new"
  "micPermission (rerender old new) = micPermission new"
  "currentTime (rerender old new) = currentTime new"
  "duration (rerender old new) = duration new"
  "visualMode (rerender old new) = visualMode new"
  "connections (rerender old new) = connections new"
  "created (rerender old new) = created new"
  "streams (rerender old new) = streams new"
  "userMediaRequests (rerender old new) = userMediaRequests new"
  "userMediaPending (rerender old new) = userMediaPending new"
  by (simp_all add: rerender_def effect_body_def effect_cleanup_def cancel_pending_upd draw_upd
      cancelAnimationFrame_def split: option.splits)

lemma mic_activate_fields:
  "audioContextRef (mic_activate s) = audioContextRef s"
  "analyserRef (mic_activate s) = analyserRef s"
  "audioElementRef (mic_activate s) = audioElementRef s"
  "micStreamRef (mic_activate s) = micStreamRef s"
  "gainNodeRef (mic_activate s) = gainNodeRef s"
  "fileSourceRef (mic_activate s) = fileSourceRef s"
  "micSourceRef (mic_activate s) = micSourceRef s"
  "isPlaying (mic_activate s) = True"
  "fileName (mic_activate s) = fileName s"
  "isMicActive (mic_activate s) = True"
  "micPermission (mic_activate s) = micPermission s"
  "connections (mic_activate s) = connections s"
  "created (mic_activate s) = created s"
  "streams (mic_activate s) = streams s"
  "userMediaRequests (mic_activate s) = userMediaRequests s"
  "userMediaPending (mic_activate s) = userMediaPending s"
  by (simp_all add: mic_activate_def draw_upd)

lemmas step_simps = dispatch_def handler_def settle_Inr rerender_fields mic_activate_fields
  stopAudioFile_Inr stopMicrophone_Inr handleFileUpload_Inr stop_mic_if_active_Inr play_file_Inr
  initializeMicAudioContext_Inr request_or_activate_Inr userMediaSettled_Rejected
  request_user_media_def

text \<open>On the platform of the standard a guarded disconnect removes the outgoing connections.\<close>

lemma disconnected_web_audio:
  "disconnected web_audio r cs = filter (\<lambda>c. Some (fst c) \<noteq> r) cs"
  by (cases r) (auto simp add: disconnected_def web_audio_def intro: filter_cong)

lemma disconnected_again:
  "disconnected web_audio a (disconnected web_audio g (disconnected web_audio g
       (disconnected web_audio a cs)))
     = disconnected web_audio a (disconnected web_audio g cs)"
  "disconnected web_audio a (disconnected web_audio g (disconnected web_audio m
       (disconnected web_audio g (disconnected web_audio a cs))))
     = disconnected web_audio a (disconnected web_audio g (disconnected web_audio m cs))"
  by (simp_all add: disconnected_web_audio, (rule filter_cong [OF refl], auto)+)

section \<open>Nodes in reachable states\<close>

lemma userMediaSettled_fields:
  "audioElementRef (settle (userMediaSettled r s)) = audioElementRef s"
  "analyserRef (settle (userMediaSettled r s)) = analyserRef s"
  "fileSourceRef (settle (userMediaSettled r s)) = fileSourceRef s"
  "created (settle (userMediaSettled r s)) =
     (if userMediaPending s = 0 then created s
      else case r of Rejected \<Rightarrow> created s | Stream n \<Rightarrow> created s @ [MicSource (length (created s))])"
  by (simp_all add: userMediaSettled_def try_catch_def attach_stream_def seq_def ok_def
      keep_stream_def connect_mic_source_def connect_def raise_def mic_catch_def settle_def
      mic_activate_fields split: media_result.splits option.splits)

lemma animationFrame_fields:
  "audioElementRef (animationFrame i s) = audioElementRef s"
  "analyserRef (animationFrame i s) = analyserRef s"
  "fileSourceRef (animationFrame i s) = fileSourceRef s"
  "created (animationFrame i s) = created s"
  by (simp_all add: animationFrame_def draw_upd)

lemma graph_inv_mounted: "graph_inv (mounted c)"
  by (simp add: graph_inv_def mounted_def)

lemma graph_inv_dispatch: "graph_inv s \<Longrightarrow> graph_inv (dispatch p ev s)"
proof (cases ev)
  case (LoadFile f)
  assume "graph_inv s"
  then show ?thesis
    unfolding LoadFile graph_inv_def
    by (auto simp add: step_simps with_file_source_def file_source_of_def list_all_iff
        split: option.splits if_splits)
next
  case StartMicrophone
  assume "graph_inv s"
  then show ?thesis
    unfolding StartMicrophone graph_inv_def
    by (auto simp add: step_simps with_gain_def detached_def list_all_iff
        split: option.splits if_splits)
next
  case (UserMedia r)
  assume "graph_inv s"
  then show ?thesis
    unfolding UserMedia graph_inv_def
    by (auto simp add: dispatch_def handler_def rerender_fields userMediaSettled_fields
        list_all_iff split: option.splits if_splits media_result.splits)
next
  case StopMicrophone
  assume "graph_inv s"
  then show ?thesis
    unfolding StopMicrophone graph_inv_def by (simp add: step_simps split: option.splits)
next
  case StopFile
  assume "graph_inv s"
  then show ?thesis
    unfolding StopFile graph_inv_def by (auto simp add: step_simps detached_def split: option.splits)
next
  case (AnimationFrame i)
  assume "graph_inv s"
  then show ?thesis
    unfolding AnimationFrame graph_inv_def
    by (simp add: dispatch_def handler_def ok_def settle_Inr rerender_fields animationFrame_fields
        split: option.splits)
qed

lemma graph_inv_run: "graph_inv s \<Longrightarrow> graph_inv (run p evs s)"
  by (induction evs arbitrary: s) (simp_all add: graph_inv_dispatch)

lemma fileSourceRef_dispatch:
  "fileSourceRef s = Some b \<Longrightarrow> fileSourceRef (dispatch p ev s) = Some b"
  by (cases ev)
     (auto simp add: step_simps file_source_of_def dispatch_def handler_def rerender_fields
        userMediaSettled_fields animationFrame_fields ok_def settle_Inr split: option.splits)

lemma fileSourceRef_run:
  "fileSourceRef s = Some b \<Longrightarrow> fileSourceRef (run p evs s) = Some b"
  by (induction evs arbitrary: s) (simp_all add: fileSourceRef_dispatch)


lemma run_append: "run p (evs @ evs') s = run p evs' (run p evs s)"
  by (induction evs arbitrary: s) simp_all

section \<open>Operations that run to completion\<close>

text \<open>
  When every request for the capture stream settles before the next event, the two
  sources exclude each other on the platform of the standard
  (\<open>exclusive_when_settled\<close>), and a frame loop is the only one
  (\<open>no_frame_after_stop_when_settled\<close>).
\<close>

lemma set_disconnected_web_audio:
  "set (disconnected web_audio r cs) = {c \<in> set cs. Some (fst c) \<noteq> r}"
  by (simp add: disconnected_web_audio)

lemma base_exclusive: "base s \<Longrightarrow> exclusive s"
proof -
  assume b: "base s"
  then have d: "dest_ok s" and m: "mic_ok s" by (simp_all add: base_def)
  have 1: "list_all (\<lambda>c. snd c = Destination \<longrightarrow> mode_of s = FileActive) (connections s)"
    using d by (auto simp add: dest_ok_def list_all_iff mode_of_def)
  have 2: "list_all (\<lambda>c. is_mic_source (fst c) \<longrightarrow>
           is_analyser (snd c) \<and> list_all (\<lambda>c'. fst c' \<noteq> snd c) (connections s)) (connections s)"
    using m unfolding mic_ok_def list_all_iff by blast
  have 3: "\<not> (list_ex (\<lambda>c. snd c = Destination) (connections s)
          \<and> list_ex (\<lambda>c. is_mic_source (fst c)) (connections s))"
    using d m unfolding dest_ok_def mic_ok_def list_ex_iff by blast
  from 1 2 3 show ?thesis by (simp add: exclusive_def)
qed

lemma animationFrame_graph:
  "connections (animationFrame i s) = connections s"
  "micSourceRef (animationFrame i s) = micSourceRef s"
  "micStreamRef (animationFrame i s) = micStreamRef s"
  "gainNodeRef (animationFrame i s) = gainNodeRef s"
  "isMicActive (animationFrame i s) = isMicActive s"
  "fileName (animationFrame i s) = fileName s"
  "userMediaPending (animationFrame i s) = userMediaPending s"
  by (simp_all add: animationFrame_def draw_upd)

lemma base_StopMicrophone:
  assumes "base s"
  shows "base (dispatch web_audio StopMicrophone s)"
proof -
  let ?t = "dispatch web_audio StopMicrophone s"
  have f: "connections ?t = disconnected web_audio (micSourceRef s) (connections s)"
    "analyserRef ?t = analyserRef s" "micSourceRef ?t = None" "micStreamRef ?t = None"
    "isMicActive ?t = False" "fileName ?t = fileName s" "created ?t = created s"
    by (simp_all add: step_simps)
  from assms have d: "dest_ok s" and m: "mic_ok s" and k: "known s" and t: "typed s"
    by (simp_all add: base_def)
  have "graph_inv ?t"
    using assms by (simp add: base_def graph_inv_dispatch)
  moreover have "dest_ok ?t"
    using d unfolding dest_ok_def f set_disconnected_web_audio by auto
  moreover have "mic_ok ?t"
    using m unfolding mic_ok_def f set_disconnected_web_audio by auto
  moreover have "known ?t"
    using k unfolding known_def f set_disconnected_web_audio by auto
  moreover have "typed ?t"
    using t unfolding typed_def f by auto
  ultimately show ?thesis by (simp add: base_def)
qed

lemma base_StopFile:
  assumes "base s"
  shows "base (dispatch web_audio StopFile s)"
proof -
  let ?t = "dispatch web_audio StopFile s"
  have f: "connections ?t = disconnected web_audio (gainNodeRef s)
             (disconnected web_audio (analyserRef s) (connections s))"
    "analyserRef ?t = analyserRef s" "micSourceRef ?t = micSourceRef s"
    "micStreamRef ?t = micStreamRef s"
    "isMicActive ?t = isMicActive s" "fileName ?t = []" "created ?t = created s"
    by (simp_all add: step_simps)
  from assms have d: "dest_ok s" and m: "mic_ok s" and k: "known s" and t: "typed s"
    by (simp_all add: base_def)
  have "graph_inv ?t"
    using assms by (simp add: base_def graph_inv_dispatch)
  moreover have "dest_ok ?t"
    using d unfolding dest_ok_def f set_disconnected_web_audio by auto
  moreover have "mic_ok ?t"
    using m unfolding mic_ok_def f set_disconnected_web_audio by auto
  moreover have "known ?t"
    using k unfolding known_def f set_disconnected_web_audio by auto
  moreover have "typed ?t"
    using t unfolding typed_def f by auto
  ultimately show ?thesis by (simp add: base_def)
qed

lemma base_AnimationFrame:
  assumes "base s"
  shows "base (dispatch web_audio (AnimationFrame i) s)"
proof -
  let ?t = "dispatch web_audio (AnimationFrame i) s"
  have f: "connections ?t = connections s"
    "analyserRef ?t = analyserRef s" "micSourceRef ?t = micSourceRef s"
    "micStreamRef ?t = micStreamRef s"
    "isMicActive ?t = isMicActive s" "fileName ?t = fileName s" "created ?t = created s"
    by (simp_all add: dispatch_def handler_def ok_def settle_Inr rerender_fields
        animationFrame_fields animationFrame_graph)
  have "graph_inv ?t"
    using assms by (simp add: base_def graph_inv_dispatch)
  then show ?thesis
    using assms unfolding base_def dest_ok_def mic_ok_def known_def typed_def f by simp
qed


lemma file_source_of_typed:
  assumes "graph_inv s"
  shows "\<not> is_mic_source (file_source_of (fileSourceRef s) (created s))"
    and "node_id (file_source_of (fileSourceRef s) (created s))
           < Suc (length (with_file_source (fileSourceRef s) (created s)))"
proof -
  show "\<not> is_mic_source (file_source_of (fileSourceRef s) (created s))"
  proof (cases "fileSourceRef s")
    case None
    then show ?thesis by (simp add: file_source_of_def)
  next
    case (Some b)
    with assms have "b \<in> set (filter is_file_source (created s))"
      by (simp add: graph_inv_def)
    then have "is_file_source b" by simp
    then have "\<not> is_mic_source b" by (cases b) simp_all
    with Some show ?thesis by (simp add: file_source_of_def)
  qed
  show "node_id (file_source_of (fileSourceRef s) (created s))
           < Suc (length (with_file_source (fileSourceRef s) (created s)))"
  proof (cases "fileSourceRef s")
    case None
    then show ?thesis by (simp add: file_source_of_def with_file_source_def)
  next
    case (Some b)
    with assms have "b \<in> set (filter is_file_source (created s))"
      by (simp add: graph_inv_def)
    then have "b \<in> set (created s)" by simp
    with assms have "node_id b < length (created s)"
      unfolding graph_inv_def list_all_iff by blast
    with Some show ?thesis by (simp add: file_source_of_def with_file_source_def)
  qed
qed

lemma length_with_file_source: "length cr \<le> length (with_file_source r cr)"
  by (simp add: with_file_source_def split: option.splits)

lemma length_with_gain: "length cr \<le> length (with_gain r cr)"
  by (simp add: with_gain_def split: option.splits)

lemma base_LoadFile:
  assumes "base s" and "name f \<noteq> []"
  shows "base (dispatch web_audio (LoadFile f) s)"
    and "userMediaPending (dispatch web_audio (LoadFile f) s) = userMediaPending s"
proof -
  let ?t = "dispatch web_audio (LoadFile f) s"
  let ?fs = "file_source_of (fileSourceRef s) (created s)"
  let ?k = "length (with_file_source (fileSourceRef s) (created s))"
  let ?cs = "if isMicActive s then disconnected web_audio (micSourceRef s) (connections s)
             else connections s"
  from assms have gi: "graph_inv s" and d: "dest_ok s" and m: "mic_ok s" and k: "known s"
    and t: "typed s"
    by (simp_all add: base_def)
  from gi obtain el where el: "audioElementRef s = Some el"
    by (auto simp add: graph_inv_def)
  have f: "connections ?t = List.insert (Analyser ?k, Destination) (List.insert (?fs, Analyser ?k)
             (disconnected web_audio (analyserRef s) (disconnected web_audio (gainNodeRef s) ?cs)))"
    "analyserRef ?t = Some (Analyser ?k)"
    "micSourceRef ?t = (if isMicActive s then None else micSourceRef s)"
    "micStreamRef ?t = (if isMicActive s then None else micStreamRef s)"
    "isMicActive ?t = False" "fileName ?t = name f"
    "created ?t = with_file_source (fileSourceRef s) (created s) @ [Analyser ?k]"
    using el by (simp_all add: step_simps)
  show "userMediaPending ?t = userMediaPending s"
    using el by (simp add: step_simps)
  have nomic: "\<forall>c \<in> set ?cs. \<not> is_mic_source (fst c)"
  proof (cases "isMicActive s")
    case True
    then show ?thesis
      using m unfolding mic_ok_def by (auto simp add: set_disconnected_web_audio)
  next
    case False
    then show ?thesis
      using m unfolding mic_ok_def by auto
  qed
  have sub: "set ?cs \<subseteq> set (connections s)"
    by (auto simp add: set_disconnected_web_audio)
  have "graph_inv ?t"
    using gi by (rule graph_inv_dispatch)
  moreover have "dest_ok ?t"
    using d sub assms(2) unfolding dest_ok_def f by (auto simp add: set_disconnected_web_audio)
  moreover have "mic_ok ?t"
    using nomic file_source_of_typed(1) [OF gi]
    unfolding mic_ok_def f by (auto simp add: set_disconnected_web_audio)
  moreover have "known ?t"
  proof -
    have "\<forall>c \<in> set ?cs. node_id (fst c) < Suc ?k"
      using k sub length_with_file_source [of "created s" "fileSourceRef s"]
      unfolding known_def by fastforce
    then show ?thesis
      using file_source_of_typed(2) [OF gi]
      unfolding known_def f by (auto simp add: set_disconnected_web_audio)
  qed
  moreover have "typed ?t"
    using t unfolding typed_def f by auto
  ultimately show "base ?t" by (simp add: base_def)
qed

lemma settled_StartMicrophone:
  assumes "base s" and "userMediaPending s = 0"
  shows "settled_inv (dispatch web_audio StartMicrophone s)"
proof -
  let ?t = "dispatch web_audio StartMicrophone s"
  let ?a = "Analyser (length (created s))"
  from assms have gi: "graph_inv s" and d: "dest_ok s" and m: "mic_ok s" and k: "known s"
    and t: "typed s"
    by (simp_all add: base_def)
  have f: "connections ?t = disconnected web_audio (analyserRef s)
             (disconnected web_audio (gainNodeRef s)
               (disconnected web_audio (analyserRef s) (connections s)))"
    "analyserRef ?t = Some ?a"
    "micSourceRef ?t = micSourceRef s"
    "micStreamRef ?t = micStreamRef s"
    "isMicActive ?t = (if micStreamRef s = None then isMicActive s else True)" "fileName ?t = []"
    "created ?t = with_gain (gainNodeRef s) (created s @ [?a])"
    "userMediaPending ?t = (if micStreamRef s = None then 1 else 0)"
    using assms(2) by (simp_all add: step_simps)
  have nodest: "\<forall>c \<in> set (connections ?t). snd c \<noteq> Destination"
    using d unfolding dest_ok_def f set_disconnected_web_audio by auto
  have "graph_inv ?t"
    using gi by (rule graph_inv_dispatch)
  moreover have "dest_ok ?t"
    using nodest unfolding dest_ok_def by blast
  moreover have "mic_ok ?t"
    using m unfolding mic_ok_def f set_disconnected_web_audio by auto
  moreover have "known ?t"
    using k length_with_gain [of "created s @ [?a]" "gainNodeRef s"]
    unfolding known_def f set_disconnected_web_audio by fastforce
  moreover have "typed ?t"
    using t unfolding typed_def f by auto
  moreover have "userMediaPending ?t = 1 \<longrightarrow> awaiting ?t"
  proof
    assume "userMediaPending ?t = 1"
    then have none: "micStreamRef s = None" by (simp add: f split: if_splits)
    with t have "micSourceRef s = None" by (auto simp add: typed_def)
    moreover have "\<forall>c \<in> set (connections ?t). fst c \<noteq> ?a"
      using k unfolding known_def f set_disconnected_web_audio by fastforce
    ultimately show "awaiting ?t"
      using none nodest unfolding awaiting_def by (simp add: f(2,3,4))
  qed
  ultimately show ?thesis
    by (simp add: settled_inv_def base_def f(8))
qed

lemma settled_UserMedia:
  assumes "settled_inv s"
  shows "base (dispatch web_audio (UserMedia r) s)"
    and "userMediaPending (dispatch web_audio (UserMedia r) s) = 0"
proof -
  let ?t = "dispatch web_audio (UserMedia r) s"
  from assms have b: "base s" and le: "userMediaPending s \<le> 1"
    and aw: "userMediaPending s = 1 \<longrightarrow> awaiting s"
    by (simp_all add: settled_inv_def)
  from b have gi: "graph_inv s" and d: "dest_ok s" and m: "mic_ok s" and k: "known s"
    and t: "typed s"
    by (simp_all add: base_def)
  have gt: "graph_inv ?t"
    using gi by (rule graph_inv_dispatch)
  have "base ?t \<and> userMediaPending ?t = 0"
  proof (cases "userMediaPending s = 0")
    case True
    then have f: "connections ?t = connections s" "analyserRef ?t = analyserRef s"
      "micSourceRef ?t = micSourceRef s" "micStreamRef ?t = micStreamRef s"
      "isMicActive ?t = isMicActive s" "fileName ?t = fileName s" "created ?t = created s"
      "userMediaPending ?t = 0"
      by (simp_all add: dispatch_def handler_def userMediaSettled_none settle_Inr rerender_fields)
    show ?thesis
      using b gt unfolding base_def dest_ok_def mic_ok_def known_def typed_def f by simp
  next
    case False
    with le have one: "userMediaPending s = 1" by simp
    with aw have a: "awaiting s" by simp
    show ?thesis
    proof (cases r)
      case Rejected
      have f: "connections ?t = connections s" "analyserRef ?t = analyserRef s"
        "micSourceRef ?t = micSourceRef s" "micStreamRef ?t = micStreamRef s"
        "isMicActive ?t = isMicActive s" "fileName ?t = fileName s" "created ?t = created s"
        "userMediaPending ?t = 0"
        using one unfolding Rejected by (simp_all add: step_simps)
      show ?thesis
        using b gt unfolding base_def dest_ok_def mic_ok_def known_def typed_def f by simp
    next
      case (Stream n)
      from a obtain an where an: "analyserRef s = Some an"
        and free: "\<forall>c \<in> set (connections s). fst c \<noteq> an"
        and nodest: "\<forall>c \<in> set (connections s). snd c \<noteq> Destination"
        and nosrc: "micSourceRef s = None"
        by (auto simp add: awaiting_def)
      from t an have isan: "is_analyser an" by (simp add: typed_def)
      let ?m = "MicSource (length (created s))"
      have pos: "0 < userMediaPending s" using one by simp
      have f: "connections ?t = List.insert (?m, an) (connections s)"
        "analyserRef ?t = Some an"
        "micSourceRef ?t = Some ?m" "micStreamRef ?t = Some (length (streams s))"
        "isMicActive ?t = True" "fileName ?t = fileName s" "created ?t = created s @ [?m]"
        "userMediaPending ?t = 0"
        using one an unfolding Stream
        by (simp_all add: dispatch_def handler_def userMediaSettled_Stream [OF an pos] settle_Inr
            rerender_fields mic_activate_fields)
      have nomic: "\<forall>c \<in> set (connections s). \<not> is_mic_source (fst c)"
        using m nosrc unfolding mic_ok_def by auto
      have "dest_ok ?t"
        using nodest isan unfolding dest_ok_def f by (cases an) auto
      moreover have "mic_ok ?t"
        using nomic free isan unfolding mic_ok_def f by (cases an) auto
      moreover have "known ?t"
        using k unfolding known_def f by fastforce
      moreover have "typed ?t"
        using isan unfolding typed_def f by simp
      ultimately show ?thesis
        using gt by (simp add: base_def f(8))
    qed
  qed
  then show "base ?t" and "userMediaPending ?t = 0" by simp_all
qed

lemma settled_operation:
  assumes "base s" and "userMediaPending s = 0" and "named op"
  shows "base (run web_audio (events_of op) s)
       \<and> userMediaPending (run web_audio (events_of op) s) = 0"
proof (cases op)
  case (Load f)
  with assms show ?thesis by (simp add: base_LoadFile)
next
  case (Start r)
  have "settled_inv (dispatch web_audio StartMicrophone s)"
    using assms(1,2) by (rule settled_StartMicrophone)
  then show ?thesis
    unfolding Start by (simp add: settled_UserMedia)
next
  case StopMic
  have "userMediaPending (dispatch web_audio StopMicrophone s) = userMediaPending s"
    by (simp add: step_simps)
  with assms show ?thesis unfolding StopMic by (simp add: base_StopMicrophone)
next
  case Stop
  have "userMediaPending (dispatch web_audio StopFile s) = userMediaPending s"
    by (simp add: step_simps)
  with assms show ?thesis unfolding Stop by (simp add: base_StopFile)
next
  case (Frame i)
  have "userMediaPending (dispatch web_audio (AnimationFrame i) s) = userMediaPending s"
    by (simp add: dispatch_def handler_def ok_def settle_Inr rerender_fields animationFrame_graph)
  with assms show ?thesis unfolding Frame by (simp add: base_AnimationFrame)
qed

lemma settled_operations:
  "base s \<Longrightarrow> userMediaPending s = 0 \<Longrightarrow> list_all named ops \<Longrightarrow>
     base (run web_audio (concat (map events_of ops)) s)
     \<and> userMediaPending (run web_audio (concat (map events_of ops)) s) = 0"
proof (induction ops arbitrary: s)
  case Nil
  then show ?case by simp
next
  case (Cons op ops)
  from Cons.prems have "base (run web_audio (events_of op) s)
       \<and> userMediaPending (run web_audio (events_of op) s) = 0"
    by (simp add: settled_operation)
  with Cons.prems Cons.IH [of "run web_audio (events_of op) s"] show ?case
    by (simp add: run_append)
qed

lemma base_mounted: "base (mounted c)"
proof -
  have "dest_ok (mounted c)" "mic_ok (mounted c)" "known (mounted c)" "typed (mounted c)"
    by (simp_all add: dest_ok_def mic_ok_def known_def typed_def mounted_def)
  with graph_inv_mounted [of c] show ?thesis by (simp add: base_def)
qed

lemma exclusive_when_settled:
  "list_all named ops \<Longrightarrow> exclusive (run web_audio (concat (map events_of ops)) (mounted c))"
proof -
  assume "list_all named ops"
  moreover have "userMediaPending (mounted c) = 0" by (simp add: mounted_def)
  ultimately have "base (run web_audio (concat (map events_of ops)) (mounted c))"
    using settled_operations [OF base_mounted] by blast
  then show ?thesis by (rule base_exclusive)
qed


lemma removeAll_all: "(\<forall>x \<in> set xs. x = a) \<Longrightarrow> removeAll a xs = []"
  by (induction xs) auto

lemma one_loop_cancelled:
  assumes "one_loop s"
  shows "cancelled (animationIdRef s) (pendingFrames s) = []"
proof (cases "pendingFrames s")
  case Nil
  then show ?thesis by (simp add: cancelled_def split: option.splits)
next
  case (Cons i xs)
  with assms have r: "animationIdRef s = Some i" and i: "0 < i"
    by (simp_all add: one_loop_def)
  from assms r have "\<forall>x \<in> set (pendingFrames s). x = i"
    by (auto simp add: one_loop_def)
  then have "removeAll i (pendingFrames s) = []" by (rule removeAll_all)
  with r i show ?thesis by (simp add: cancelled_def)
qed

lemma one_loop_empty:
  "pendingFrames s = [] \<Longrightarrow> 0 < nextFrameId s \<Longrightarrow> one_loop s"
  by (simp add: one_loop_def)

lemma one_loop_draw:
  "pendingFrames s = [] \<Longrightarrow> 0 < nextFrameId s \<Longrightarrow> one_loop (draw s)"
  by (simp add: draw_upd one_loop_def)

lemma one_loop_rerender:
  assumes "one_loop new"
  shows "one_loop (rerender old new)"
proof (cases "(isPlaying old, fileName old, isMicActive old, visualMode old)
         = (isPlaying new, fileName new, isMicActive new, visualMode new)")
  case True
  with assms show ?thesis by (simp add: rerender_def)
next
  case False
  let ?c = "effect_cleanup new"
  have c: "pendingFrames ?c = []" "0 < nextFrameId ?c"
    using assms one_loop_cancelled [OF assms]
    by (simp_all add: effect_cleanup_def cancel_pending_upd one_loop_def)
  have "one_loop (effect_body ?c)"
  proof (cases "isPlaying ?c \<and> (fileName ?c \<noteq> [] \<or> isMicActive ?c)")
    case True
    then show ?thesis using c by (simp add: effect_body_def one_loop_draw)
  next
    case False
    then show ?thesis using c
      by (auto simp add: effect_body_def one_loop_def cancelAnimationFrame_def split: option.splits)
  qed
  with False show ?thesis by (auto simp add: rerender_def)
qed

lemma rerender_idle:
  assumes "pendingFrames new = []" and "\<not> isPlaying new"
  shows "pendingFrames (rerender old new) = []"
  using assms
  by (auto simp add: rerender_def effect_body_def effect_cleanup_def cancel_pending_upd
      cancelled_def cancelAnimationFrame_def split: option.splits)

lemma stop_cancels:
  assumes "one_loop s"
  shows "pendingFrames (dispatch p StopMicrophone s) = []"
    and "pendingFrames (dispatch p StopFile s) = []"
    and "one_loop (dispatch p StopMicrophone s)"
    and "one_loop (dispatch p StopFile s)"
proof -
  have m: "pendingFrames (settle (stopMicrophone p s)) = []"
      "\<not> isPlaying (settle (stopMicrophone p s))"
      "nextFrameId (settle (stopMicrophone p s)) = nextFrameId s"
    using one_loop_cancelled [OF assms] by (simp_all add: stopMicrophone_Inr settle_Inr)
  have f: "pendingFrames (settle (stopAudioFile p s)) = []"
      "\<not> isPlaying (settle (stopAudioFile p s))"
      "nextFrameId (settle (stopAudioFile p s)) = nextFrameId s"
    using one_loop_cancelled [OF assms] by (simp_all add: stopAudioFile_Inr settle_Inr)
  show "pendingFrames (dispatch p StopMicrophone s) = []"
    using m by (simp add: dispatch_def handler_def rerender_idle)
  show "pendingFrames (dispatch p StopFile s) = []"
    using f by (simp add: dispatch_def handler_def rerender_idle)
  have "0 < nextFrameId s" using assms by (simp add: one_loop_def)
  then have "one_loop (settle (stopMicrophone p s))" "one_loop (settle (stopAudioFile p s))"
    using m f by (simp_all add: one_loop_empty)
  then show "one_loop (dispatch p StopMicrophone s)" "one_loop (dispatch p StopFile s)"
    by (simp_all add: dispatch_def handler_def one_loop_rerender)
qed

lemma one_loop_LoadFile:
  assumes "one_loop s"
  shows "one_loop (dispatch p (LoadFile f) s)"
proof -
  let ?h = "settle (handleFileUpload p (Some f) s)"
  have "pendingFrames ?h = (if isMicActive s then [] else pendingFrames s)"
      "animationIdRef ?h = animationIdRef s" "nextFrameId ?h = nextFrameId s"
    using one_loop_cancelled [OF assms]
    by (simp_all add: handleFileUpload_Inr stop_mic_if_active_Inr play_file_Inr settle_Inr
        split: option.splits)
  with assms have "one_loop ?h" by (simp add: one_loop_def)
  then show ?thesis by (simp add: dispatch_def handler_def one_loop_rerender)
qed

lemma one_loop_StartMicrophone:
  assumes "one_loop s"
  shows "one_loop (dispatch p StartMicrophone s)"
    and "micStreamRef s = None \<Longrightarrow> pendingFrames (dispatch p StartMicrophone s) = []"
proof -
  let ?h = "settle (initializeMicAudioContext p s)"
  have pos: "0 < nextFrameId s" using assms by (simp add: one_loop_def)
  have h: "one_loop ?h"
  proof (cases "micStreamRef s")
    case None
    then show ?thesis
      using one_loop_cancelled [OF assms] pos
      by (simp add: initializeMicAudioContext_Inr request_or_activate_Inr settle_Inr
          request_user_media_def one_loop_def)
  next
    case (Some i)
    then show ?thesis
      using one_loop_cancelled [OF assms] pos
      by (simp add: initializeMicAudioContext_Inr request_or_activate_Inr settle_Inr
          mic_activate_def one_loop_draw)
  qed
  then show "one_loop (dispatch p StartMicrophone s)"
    by (simp add: dispatch_def handler_def one_loop_rerender)
  assume none: "micStreamRef s = None"
  then have "pendingFrames ?h = []" "\<not> isPlaying ?h"
    using one_loop_cancelled [OF assms]
    by (simp_all add: initializeMicAudioContext_Inr request_or_activate_Inr settle_Inr
        request_user_media_def)
  then show "pendingFrames (dispatch p StartMicrophone s) = []"
    by (simp add: dispatch_def handler_def rerender_idle)
qed

lemma one_loop_AnimationFrame:
  assumes "one_loop s"
  shows "one_loop (dispatch p (AnimationFrame i) s)"
proof -
  have "one_loop (animationFrame i s)"
  proof (cases "i \<in> set (pendingFrames s)")
    case True
    with assms have "animationIdRef s = Some i" by (simp add: one_loop_def)
    with assms have "\<forall>x \<in> set (pendingFrames s). x = i"
      by (auto simp add: one_loop_def)
    then have e: "removeAll i (pendingFrames s) = []" by (rule removeAll_all)
    have "0 < nextFrameId s" using assms by (simp add: one_loop_def)
    then have "one_loop (draw (s\<lparr>pendingFrames := []\<rparr>))"
      by (simp add: one_loop_draw)
    with True e show ?thesis by (simp add: animationFrame_def)
  next
    case False
    with assms show ?thesis by (simp add: animationFrame_def)
  qed
  then show ?thesis
    by (simp add: dispatch_def handler_def ok_def settle_Inr one_loop_rerender)
qed

lemma one_loop_UserMedia:
  assumes "one_loop s" and "0 < userMediaPending s \<longrightarrow> pendingFrames s = []"
  shows "one_loop (dispatch p (UserMedia r) s)"
proof -
  have pos: "0 < nextFrameId s" using assms by (simp add: one_loop_def)
  have "one_loop (settle (userMediaSettled r s))"
  proof (cases "userMediaPending s = 0")
    case True
    with assms show ?thesis by (simp add: userMediaSettled_none settle_Inr)
  next
    case False
    with assms have e: "pendingFrames s = []" by simp
    show ?thesis
    proof (cases r)
      case Rejected
      with False e pos show ?thesis
        by (simp add: userMediaSettled_Rejected settle_Inr one_loop_def)
    next
      case (Stream n)
      show ?thesis
      proof (cases "analyserRef s")
        case None
        with False e pos show ?thesis
          unfolding Stream
          by (simp add: userMediaSettled_def try_catch_def attach_stream_def seq_def ok_def
              keep_stream_def connect_mic_source_def raise_def mic_catch_def settle_def one_loop_def)
      next
        case (Some a)
        from False have p: "0 < userMediaPending s" by simp
        show ?thesis
          unfolding Stream userMediaSettled_Stream [OF Some p] settle_Inr mic_activate_def
          using e pos by (simp add: one_loop_draw)
      qed
    qed
  qed
  then show ?thesis
    by (simp add: dispatch_def handler_def one_loop_rerender)
qed


lemma userMediaPending_settled:
  "userMediaPending (settle (userMediaSettled r s)) = userMediaPending s - 1"
  by (simp add: userMediaSettled_def try_catch_def attach_stream_def seq_def ok_def
      keep_stream_def connect_mic_source_def connect_def raise_def mic_catch_def settle_def
      mic_activate_fields split: media_result.splits option.splits)

lemma userMediaPending_dispatch:
  "userMediaPending (dispatch p (LoadFile f) s) = userMediaPending s"
  "userMediaPending (dispatch p StartMicrophone s)
     = (if micStreamRef s = None then userMediaPending s + 1 else userMediaPending s)"
  "userMediaPending (dispatch p (UserMedia r) s) = userMediaPending s - 1"
  "userMediaPending (dispatch p StopMicrophone s) = userMediaPending s"
  "userMediaPending (dispatch p StopFile s) = userMediaPending s"
  "userMediaPending (dispatch p (AnimationFrame i) s) = userMediaPending s"
  by (simp_all add: step_simps dispatch_def handler_def ok_def settle_Inr rerender_fields
      animationFrame_graph userMediaPending_settled split: option.splits)

lemma one_loop_operation:
  assumes "one_loop s" and "userMediaPending s = 0"
  shows "one_loop (run p (events_of op) s)"
    and "userMediaPending (run p (events_of op) s) = 0"
    and "op = StopMic \<or> op = Stop \<Longrightarrow> pendingFrames (run p (events_of op) s) = []"
proof -
  show "one_loop (run p (events_of op) s)"
  proof (cases op)
    case (Load f)
    with assms show ?thesis by (simp add: one_loop_LoadFile)
  next
    case (Start r)
    let ?t = "dispatch p StartMicrophone s"
    have "one_loop ?t" using assms(1) by (rule one_loop_StartMicrophone(1))
    moreover have "0 < userMediaPending ?t \<longrightarrow> pendingFrames ?t = []"
      using assms one_loop_StartMicrophone(2) [of s p]
      by (simp add: userMediaPending_dispatch split: if_splits)
    ultimately show ?thesis unfolding Start by (simp add: one_loop_UserMedia)
  next
    case StopMic
    with assms show ?thesis by (simp add: stop_cancels)
  next
    case Stop
    with assms show ?thesis by (simp add: stop_cancels)
  next
    case (Frame i)
    with assms show ?thesis by (simp add: one_loop_AnimationFrame)
  qed
  show "userMediaPending (run p (events_of op) s) = 0"
    using assms(2) by (cases op) (simp_all add: userMediaPending_dispatch)
  assume "op = StopMic \<or> op = Stop"
  then show "pendingFrames (run p (events_of op) s) = []"
    using assms(1) by (auto simp add: stop_cancels)
qed

lemma one_loop_operations:
  "one_loop s \<Longrightarrow> userMediaPending s = 0 \<Longrightarrow>
     one_loop (run p (concat (map events_of ops)) s)
     \<and> userMediaPending (run p (concat (map events_of ops)) s) = 0"
proof (induction ops arbitrary: s)
  case Nil
  then show ?case by simp
next
  case (Cons op ops)
  from Cons.prems have "one_loop (run p (events_of op) s)"
    "userMediaPending (run p (events_of op) s) = 0"
    by (simp_all add: one_loop_operation)
  with Cons.IH [of "run p (events_of op) s"] show ?case
    by (simp add: run_append)
qed

lemma no_frame_after_stop_when_settled:
  assumes "op = StopMic \<or> op = Stop"
  shows "pendingFrames (run p (concat (map events_of (ops @ [op]))) (mounted c)) = []"
    and "framesDrawn (run p (concat (map events_of (ops @ [op, Frame i]))) (mounted c))
           = framesDrawn (run p (concat (map events_of (ops @ [op]))) (mounted c))"
proof -
  let ?s = "run p (concat (map events_of ops)) (mounted c)"
  have "one_loop (mounted c)" "userMediaPending (mounted c) = 0"
    by (simp_all add: one_loop_def mounted_def)
  then have "one_loop ?s \<and> userMediaPending ?s = 0"
    by (rule one_loop_operations)
  then have e: "pendingFrames (run p (events_of op) ?s) = []"
    using assms by (simp add: one_loop_operation(3))
  then show "pendingFrames (run p (concat (map events_of (ops @ [op]))) (mounted c)) = []"
    by (simp add: run_append)
  have "dispatch p (AnimationFrame i) (run p (events_of op) ?s) = run p (events_of op) ?s"
    using e by (simp add: dispatch_def handler_def ok_def settle_Inr animationFrame_def rerender_def)
  then show "framesDrawn (run p (concat (map events_of (ops @ [op, Frame i]))) (mounted c))
           = framesDrawn (run p (concat (map events_of (ops @ [op]))) (mounted c))"
    by (simp add: run_append)
qed

section \<open>Connections after any sequence of events\<close>













section \<open>The claims\<close>

text \<open>
  C1 fails when a file is chosen while the request for the capture stream is pending:
  \<open>handleFileUpload\<close> sees \<open>isMicActive = false\<close> and builds the file chain; when the
  promise settles, the rest of \<open>initializeMicAudioContext\<close> connects the microphone
  source to the analyser \<open>analyserRef\<close> holds by then, which is the one of the file
  chain, connected to the destination. The file chain and the microphone connection
  are live together, and the captured audio reaches the engine output. When every
  request settles before the next event the exclusion holds, by
  \<open>exclusive_when_settled\<close>.
\<close>

theorem microphone_joins_file_chain:
  "connections (run web_audio [StartMicrophone, LoadFile example_file, UserMedia (Stream 1)]
      (mounted example_canvas))
     = [(MicSource 4, Analyser 3), (Analyser 3, Destination), (FileSource 2, Analyser 3)]
   \<and> fileSourceRef (run web_audio [StartMicrophone, LoadFile example_file, UserMedia (Stream 1)]
      (mounted example_canvas)) = Some (FileSource 2)
   \<and> micSourceRef (run web_audio [StartMicrophone, LoadFile example_file, UserMedia (Stream 1)]
      (mounted example_canvas)) = Some (MicSource 4)
   \<and> streams (run web_audio [StartMicrophone, LoadFile example_file, UserMedia (Stream 1)]
      (mounted example_canvas)) = [[Live]]
   \<and> audioElementRef (run web_audio [StartMicrophone, LoadFile example_file, UserMedia (Stream 1)]
      (mounted example_canvas))
     = Some \<lparr>el_paused = True, el_currentTime = 0, el_src = ''blob:1''\<rparr>"
  by code_simp

text \<open>
  C2. In every state reached from the mounted page, on every platform, at most one
  file source has been created, and a file source held in \<open>fileSourceRef\<close> stays there
  through every further event. Loading a file with a name then gives file mode with
  the name and the content of that file; the analyser in \<open>analyserRef\<close> is a node that
  did not exist before and differs from the one held before; the file source is
  connected to it and it is connected to the destination.
\<close>

theorem file_source_created_once:
  "length (filter is_file_source (created (run p evs (mounted c)))) \<le> 1
   \<and> (fileSourceRef (run p evs (mounted c)) = Some b
        \<longrightarrow> fileSourceRef (run p (evs @ evs') (mounted c)) = Some b)
   \<and> (name f \<noteq> [] \<longrightarrow>
        mode_of (run p (evs @ [LoadFile f]) (mounted c)) = FileActive
      \<and> fileName (run p (evs @ [LoadFile f]) (mounted c)) = name f
      \<and> audioElementRef (run p (evs @ [LoadFile f]) (mounted c))
          = Some \<lparr>el_paused = True, el_currentTime = 0, el_src = createObjectURL f\<rparr>
      \<and> (\<exists>source analyser.
            fileSourceRef (run p (evs @ [LoadFile f]) (mounted c)) = Some source
          \<and> analyserRef (run p (evs @ [LoadFile f]) (mounted c)) = Some analyser
          \<and> analyser \<notin> set (created (run p evs (mounted c)))
          \<and> analyserRef (run p evs (mounted c)) \<noteq> Some analyser
          \<and> (source, analyser) \<in> set (connections (run p (evs @ [LoadFile f]) (mounted c)))
          \<and> (analyser, Destination) \<in> set (connections (run p (evs @ [LoadFile f]) (mounted c)))))"
proof -
  let ?s = "run p evs (mounted c)"
  have inv: "graph_inv ?s"
    by (rule graph_inv_run [OF graph_inv_mounted])
  then obtain el where el: "audioElementRef ?s = Some el"
    by (auto simp add: graph_inv_def)
  have once: "length (filter is_file_source (created ?s)) \<le> 1"
    using inv by (simp add: graph_inv_def split: option.splits)
  have stable: "fileSourceRef ?s = Some b \<longrightarrow> fileSourceRef (run p (evs @ evs') (mounted c)) = Some b"
    by (simp add: run_append fileSourceRef_run)
  let ?k = "length (with_file_source (fileSourceRef ?s) (created ?s))"
  have fresh: "Analyser ?k \<notin> set (created ?s)"
  proof
    assume "Analyser ?k \<in> set (created ?s)"
    with inv have "node_id (Analyser ?k) < length (created ?s)"
      unfolding graph_inv_def list_all_iff by blast
    then show False
      by (simp add: with_file_source_def split: option.splits)
  qed
  then have differs: "analyserRef ?s \<noteq> Some (Analyser ?k)"
    using inv by (auto simp add: graph_inv_def)
  have load: "name f \<noteq> [] \<longrightarrow>
        mode_of (dispatch p (LoadFile f) ?s) = FileActive
      \<and> fileName (dispatch p (LoadFile f) ?s) = name f
      \<and> audioElementRef (dispatch p (LoadFile f) ?s)
          = Some \<lparr>el_paused = True, el_currentTime = 0, el_src = createObjectURL f\<rparr>
      \<and> fileSourceRef (dispatch p (LoadFile f) ?s)
          = Some (file_source_of (fileSourceRef ?s) (created ?s))
      \<and> analyserRef (dispatch p (LoadFile f) ?s) = Some (Analyser ?k)
      \<and> (file_source_of (fileSourceRef ?s) (created ?s), Analyser ?k)
          \<in> set (connections (dispatch p (LoadFile f) ?s))
      \<and> (Analyser ?k, Destination) \<in> set (connections (dispatch p (LoadFile f) ?s))"
    using el by (simp add: step_simps mode_of_def load_def)
  from once stable load fresh differs show ?thesis
    by (simp add: run_append)
qed

text \<open>The theorem after a file was loaded and stopped: the file source is node 0.\<close>

theorem file_source_created_once_witness:
  "fileSourceRef (run web_audio [LoadFile example_file, StopFile] (mounted example_canvas))
     = Some (FileSource 0)
   \<and> name other_file \<noteq> []
   \<and> fileSourceRef (run web_audio ([LoadFile example_file, StopFile] @ [StartMicrophone])
        (mounted example_canvas)) = Some (FileSource 0)
   \<and> mode_of (run web_audio ([LoadFile example_file, StopFile] @ [LoadFile other_file])
        (mounted example_canvas)) = FileActive"
proof -
  have h: "fileSourceRef (run web_audio [LoadFile example_file, StopFile] (mounted example_canvas))
     = Some (FileSource 0)" "name other_file \<noteq> []"
    by code_simp+
  from file_source_created_once [of web_audio "[LoadFile example_file, StopFile]" example_canvas
      "FileSource 0" "[StartMicrophone]" other_file] h
  show ?thesis by blast
qed

text \<open>
  C3. \<open>initializeMicAudioContext\<close> reaches the statement that requests the capture
  stream in a state where the audio element is paused, rewound and detached and the
  file name cleared, with no request made yet; it makes the request exactly when
  \<open>micStreamRef\<close> holds no stream, and there it stops until the promise settles. After
  \<open>stopMicrophone\<close>, which stops every track of the stream held and drops the stream,
  \<open>initializeMicAudioContext\<close> makes a new request; the stream it is given is a new
  one, the tracks of the previous stream are all ended, and the microphone is active
  with the permission granted.
\<close>

theorem microphone_restart:
  "(audioElementRef s = Some el \<longrightarrow>
      (\<exists>t. initializeMicAudioContext p s = request_or_activate t
         \<and> audioElementRef t = Some (el\<lparr>el_paused := True, el_currentTime := 0, el_src := []\<rparr>)
         \<and> fileName t = [] \<and> \<not> isPlaying t
         \<and> userMediaRequests t = userMediaRequests s)
      \<and> audioElementRef (dispatch p StartMicrophone s)
        = Some (el\<lparr>el_paused := True, el_currentTime := 0, el_src := []\<rparr>)
      \<and> fileName (dispatch p StartMicrophone s) = []
      \<and> userMediaRequests (dispatch p StartMicrophone s)
        = (if micStreamRef s = None then userMediaRequests s + 1 else userMediaRequests s))
   \<and> (micStreamRef s = Some i \<and> i < length (streams s) \<longrightarrow>
      userMediaRequests (run p [StopMicrophone, StartMicrophone] s) = userMediaRequests s + 1
      \<and> micStreamRef (run p [StopMicrophone, StartMicrophone, UserMedia (Stream n)] s)
        = Some (length (streams s))
      \<and> length (streams s) \<noteq> i
      \<and> streams (run p [StopMicrophone, StartMicrophone, UserMedia (Stream n)] s) ! i
        = map (\<lambda>t. Ended) (streams s ! i)
      \<and> streams (run p [StopMicrophone, StartMicrophone, UserMedia (Stream n)] s)
          ! length (streams s) = replicate n Live
      \<and> isMicActive (run p [StopMicrophone, StartMicrophone, UserMedia (Stream n)] s)
      \<and> micPermission (run p [StopMicrophone, StartMicrophone, UserMedia (Stream n)] s) = Granted)"
proof (intro conjI impI)
  assume el: "audioElementRef s = Some el"
  then show "audioElementRef (dispatch p StartMicrophone s)
        = Some (el\<lparr>el_paused := True, el_currentTime := 0, el_src := []\<rparr>)"
    by (simp add: step_simps detached_def)
  show "\<exists>t. initializeMicAudioContext p s = request_or_activate t
         \<and> audioElementRef t = Some (el\<lparr>el_paused := True, el_currentTime := 0, el_src := []\<rparr>)
         \<and> fileName t = [] \<and> \<not> isPlaying t
         \<and> userMediaRequests t = userMediaRequests s"
    unfolding initializeMicAudioContext_Inr
    by (rule exI, intro conjI, rule refl) (simp_all add: detached_def el)
next
  show "fileName (dispatch p StartMicrophone s) = []"
    by (simp add: step_simps)
  show "userMediaRequests (dispatch p StartMicrophone s)
        = (if micStreamRef s = None then userMediaRequests s + 1 else userMediaRequests s)"
    by (simp add: step_simps)
next
  assume a: "micStreamRef s = Some i \<and> i < length (streams s)"
  let ?s1 = "dispatch p StopMicrophone s"
  let ?s2 = "dispatch p StartMicrophone ?s1"
  have s1: "micStreamRef ?s1 = None" "streams ?s1 = (streams s)[i := map (\<lambda>t. Ended) (streams s ! i)]"
    "userMediaRequests ?s1 = userMediaRequests s"
    using a by (simp_all add: step_simps ended_def)
  have s2: "micStreamRef ?s2 = None" "streams ?s2 = streams ?s1"
    "userMediaRequests ?s2 = userMediaRequests s + 1"
    "0 < userMediaPending ?s2" "analyserRef ?s2 = Some (Analyser (length (created ?s1)))"
    using s1 by (simp_all add: step_simps)
  have s3: "settle (userMediaSettled (Stream n) ?s2) =
       mic_activate
         (?s2\<lparr>userMediaPending := userMediaPending ?s2 - 1,
            streams := streams ?s2 @ [replicate n Live],
            micStreamRef := Some (length (streams ?s2)),
            micPermission := Granted,
            created := created ?s2 @ [MicSource (length (created ?s2))],
            connections := List.insert (MicSource (length (created ?s2)), Analyser (length (created ?s1)))
               (connections ?s2),
            micSourceRef := Some (MicSource (length (created ?s2)))\<rparr>)"
    using userMediaSettled_Stream [OF s2(5) s2(4)] by (simp add: settle_Inr)
  show "userMediaRequests (run p [StopMicrophone, StartMicrophone] s) = userMediaRequests s + 1"
    using s2 by simp
  show "micStreamRef (run p [StopMicrophone, StartMicrophone, UserMedia (Stream n)] s)
        = Some (length (streams s))"
    using s1 s2 by (simp add: dispatch_def [of p "UserMedia (Stream n)"] handler_def s3
        rerender_fields mic_activate_fields)
  show "length (streams s) \<noteq> i" using a by simp
  show "streams (run p [StopMicrophone, StartMicrophone, UserMedia (Stream n)] s) ! i
        = map (\<lambda>t. Ended) (streams s ! i)"
    using a s1 s2 by (simp add: dispatch_def [of p "UserMedia (Stream n)"] handler_def s3
        rerender_fields mic_activate_fields nth_append)
  show "streams (run p [StopMicrophone, StartMicrophone, UserMedia (Stream n)] s)
          ! length (streams s) = replicate n Live"
    using s1 s2 by (simp add: dispatch_def [of p "UserMedia (Stream n)"] handler_def s3
        rerender_fields mic_activate_fields nth_append)
  show "isMicActive (run p [StopMicrophone, StartMicrophone, UserMedia (Stream n)] s)"
    by (simp add: dispatch_def [of p "UserMedia (Stream n)"] handler_def s3
        rerender_fields mic_activate_fields)
  show "micPermission (run p [StopMicrophone, StartMicrophone, UserMedia (Stream n)] s) = Granted"
    by (simp add: dispatch_def [of p "UserMedia (Stream n)"] handler_def s3
        rerender_fields mic_activate_fields)
qed

text \<open>The theorem in the state where the microphone runs on a stream of two tracks.\<close>

theorem microphone_restart_witness:
  "audioElementRef (run web_audio [StartMicrophone, UserMedia (Stream 2)] (mounted example_canvas))
     = Some \<lparr>el_paused = True, el_currentTime = 0, el_src = []\<rparr>
   \<and> micStreamRef (run web_audio [StartMicrophone, UserMedia (Stream 2)] (mounted example_canvas))
     = Some 0
   \<and> 0 < length (streams (run web_audio [StartMicrophone, UserMedia (Stream 2)]
                       (mounted example_canvas)))
   \<and> userMediaRequests (run web_audio [StopMicrophone, StartMicrophone]
        (run web_audio [StartMicrophone, UserMedia (Stream 2)] (mounted example_canvas)))
     = userMediaRequests (run web_audio [StartMicrophone, UserMedia (Stream 2)]
        (mounted example_canvas)) + 1
   \<and> streams (run web_audio [StopMicrophone, StartMicrophone, UserMedia (Stream 1)]
        (run web_audio [StartMicrophone, UserMedia (Stream 2)] (mounted example_canvas))) ! 0
     = map (\<lambda>t. Ended)
        (streams (run web_audio [StartMicrophone, UserMedia (Stream 2)] (mounted example_canvas)) ! 0)"
proof -
  have h: "audioElementRef (run web_audio [StartMicrophone, UserMedia (Stream 2)] (mounted example_canvas))
     = Some \<lparr>el_paused = True, el_currentTime = 0, el_src = []\<rparr>"
    "micStreamRef (run web_audio [StartMicrophone, UserMedia (Stream 2)] (mounted example_canvas))
     = Some 0
     \<and> 0 < length (streams (run web_audio [StartMicrophone, UserMedia (Stream 2)]
                       (mounted example_canvas)))"
    by code_simp+
  from microphone_restart [of "run web_audio [StartMicrophone, UserMedia (Stream 2)]
        (mounted example_canvas)" "\<lparr>el_paused = True, el_currentTime = 0, el_src = []\<rparr>"
        web_audio 0 1] h
  show ?thesis by blast
qed




text \<open>
  C5. With the audio element mounted, \<open>handleFileUpload\<close> leaves the same graph state
  whether or not \<open>stopAudioFile\<close> ran just before it: the file source that existed is
  used again, the analyser is a new node, and the audio element holds the new file at
  position 0.
\<close>

theorem reload_equals_stop_then_load:
  "audioElementRef s = Some el \<Longrightarrow>
     graph_state (run web_audio [StopFile, LoadFile f] s) = graph_state (run web_audio [LoadFile f] s)
     \<and> audioElementRef (run web_audio [LoadFile f] s)
         = Some \<lparr>el_paused = True, el_currentTime = 0, el_src = createObjectURL f\<rparr>
     \<and> fileName (run web_audio [LoadFile f] s) = name f
     \<and> (\<forall>b. fileSourceRef s = Some b \<longrightarrow> fileSourceRef (run web_audio [LoadFile f] s) = Some b)
     \<and> analyserRef (run web_audio [LoadFile f] s)
         = Some (Analyser (length (with_file_source (fileSourceRef s) (created s))))"
  by (simp add: graph_state_def step_simps detached_def disconnected_again load_def
      file_source_of_def)

text \<open>The theorem in file mode, loading a second file.\<close>

theorem reload_equals_stop_then_load_witness:
  "mode_of (run web_audio [LoadFile example_file] (mounted example_canvas)) = FileActive
   \<and> audioElementRef (run web_audio [LoadFile example_file] (mounted example_canvas))
        = Some \<lparr>el_paused = True, el_currentTime = 0, el_src = ''blob:1''\<rparr>
   \<and> graph_state (run web_audio [StopFile, LoadFile other_file]
        (run web_audio [LoadFile example_file] (mounted example_canvas)))
     = graph_state (run web_audio [LoadFile other_file]
        (run web_audio [LoadFile example_file] (mounted example_canvas)))
   \<and> fileSourceRef (run web_audio [LoadFile other_file]
        (run web_audio [LoadFile example_file] (mounted example_canvas))) = Some (FileSource 0)"
proof -
  have h: "audioElementRef (run web_audio [LoadFile example_file] (mounted example_canvas))
        = Some \<lparr>el_paused = True, el_currentTime = 0, el_src = ''blob:1''\<rparr>"
    by code_simp
  have m: "mode_of (run web_audio [LoadFile example_file] (mounted example_canvas)) = FileActive"
    by code_simp
  have f: "fileSourceRef (run web_audio [LoadFile example_file] (mounted example_canvas))
        = Some (FileSource 0)"
    by code_simp
  from reload_equals_stop_then_load [OF h, of other_file] h m f
  show ?thesis by blast
qed

text \<open>
  C6. For the snapshot of 128 zeros both renderers return normally: no division has a
  zero divisor and \<open>reduce\<close> does not raise. Every bar has height 0, every spike ends
  where it starts, on the circle of radius \<open>radius c\<close>, and the outer glow disc has
  radius 25. For the snapshot of 128 values 255 every bar has height \<open>height * 0.8\<close>
  and every spike ends at distance \<open>radius c + maxSpikeLength c\<close> from the centre,
  which is half the shorter side of the canvas; the circle has a fifth of that side
  as its radius.
\<close>

theorem silence_and_full_scale:
  "drawBars c (replicate 128 0) = Inr (clear_canvas c # concat (map (\<lambda>i.
     [FillRect (Hsl (hue i 128) 100 50) (real i * (barWidth c (replicate 128 0) + 1))
        (real (height c)) (barWidth c (replicate 128 0)) 0,
      FillRect (Hsl (hue i 128) 100 30) (real i * (barWidth c (replicate 128 0) + 1))
        (real (height c) - 2) (barWidth c (replicate 128 0)) 2]) [0..<128]))
   \<and> drawCircle c (replicate 128 0) = Inr (clear_canvas c
     # StrokeArc (Rgba 255 255 255 0.1) 2 (centerX c) (centerY c) (radius c) 0 (pi * 2)
     # map (\<lambda>i. StrokeLine (Hsl (hue i 128) 100 50) 2
           (centerX c + cos (angle i 128) * radius c) (centerY c + sin (angle i 128) * radius c)
           (centerX c + cos (angle i 128) * radius c) (centerY c + sin (angle i 128) * radius c))
         [0..<128]
     @ [FillArc (Rgba 0 255 255 0) (centerX c) (centerY c) 25 0 (pi * 2),
        FillArc (Css ''#00ffff'') (centerX c) (centerY c) 15 0 (pi * 2),
        FillArc (Css ''#ffffff'') (centerX c) (centerY c) 7.5 0 (pi * 2)])
   \<and> drawBars c (replicate 128 255) = Inr (clear_canvas c # concat (map (\<lambda>i.
     [FillRect (Hsl (hue i 128) 100 50) (real i * (barWidth c (replicate 128 255) + 1))
        (real (height c) - real (height c) * 0.8) (barWidth c (replicate 128 255))
        (real (height c) * 0.8),
      FillRect (Hsl (hue i 128) 100 30) (real i * (barWidth c (replicate 128 255) + 1))
        (real (height c) - real (height c) * 0.8 - 2) (barWidth c (replicate 128 255)) 2])
         [0..<128]))
   \<and> drawCircle c (replicate 128 255) = Inr (clear_canvas c
     # StrokeArc (Rgba 255 255 255 0.1) 2 (centerX c) (centerY c) (radius c) 0 (pi * 2)
     # map (\<lambda>i. StrokeLine (Hsl (hue i 128) 100 70) 5
           (centerX c + cos (angle i 128) * radius c) (centerY c + sin (angle i 128) * radius c)
           (centerX c + cos (angle i 128) * (radius c + maxSpikeLength c))
           (centerY c + sin (angle i 128) * (radius c + maxSpikeLength c)))
         [0..<128]
     @ [FillArc (Rgba 0 255 255 0.3) (centerX c) (centerY c) 35 0 (pi * 2),
        FillArc (Css ''#00ffff'') (centerX c) (centerY c) 25 0 (pi * 2),
        FillArc (Css ''#ffffff'') (centerX c) (centerY c) 12.5 0 (pi * 2)])
   \<and> radius c = min (real (width c)) (real (height c)) / 5
   \<and> radius c + maxSpikeLength c = min (real (width c)) (real (height c)) / 2"
proof -
  have n: "(0::nat) < 128" by simp
  have r0: "radius c = min (real (width c)) (real (height c)) / 5"
    by (simp add: radius_def centerX_def centerY_def min_def)
  have r1: "radius c + maxSpikeLength c = min (real (width c)) (real (height c)) / 2"
    by (simp add: radius_def maxSpikeLength_def centerX_def centerY_def min_def)
  have h0: "barHeight c 0 = 0"
    by (simp add: barHeight_def magnitude_0)
  have h1: "barHeight c 255 = real (height c) * 0.8"
    by (simp add: barHeight_def magnitude_255)
  have f0: "frequency 0 = 0"
    by (simp add: frequency_def magnitude_0)
  have f1: "frequency 255 = 1"
    by (simp add: frequency_def magnitude_255)
  have l0: "spikeLength c 0 = radius c"
    by (simp add: spikeLength_def f0)
  have l1: "spikeLength c 255 = radius c + maxSpikeLength c"
    by (simp add: spikeLength_def f1)
  have g0: "glow c (magnitude 0 / 255) =
       [FillArc (Rgba 0 255 255 0) (centerX c) (centerY c) 25 0 (pi * 2),
        FillArc (Css ''#00ffff'') (centerX c) (centerY c) 15 0 (pi * 2),
        FillArc (Css ''#ffffff'') (centerX c) (centerY c) 7.5 0 (pi * 2)]"
    by (simp add: glow_def magnitude_0)
  have g1: "glow c (magnitude 255 / 255) =
       [FillArc (Rgba 0 255 255 0.3) (centerX c) (centerY c) 35 0 (pi * 2),
        FillArc (Css ''#00ffff'') (centerX c) (centerY c) 25 0 (pi * 2),
        FillArc (Css ''#ffffff'') (centerX c) (centerY c) 12.5 0 (pi * 2)]"
    by (simp add: glow_def magnitude_255)
  have a: "50 + (0::real) * 20 = 50" "2 + (0::real) * 3 = 2"
          "50 + (1::real) * 20 = 70" "2 + (1::real) * 3 = 5"
    by simp_all
  have b0: "drawBars c (replicate 128 0) = Inr (clear_canvas c # concat (map (\<lambda>i.
     [FillRect (Hsl (hue i 128) 100 50) (real i * (barWidth c (replicate 128 0) + 1))
        (real (height c)) (barWidth c (replicate 128 0)) 0,
      FillRect (Hsl (hue i 128) 100 30) (real i * (barWidth c (replicate 128 0) + 1))
        (real (height c) - 2) (barWidth c (replicate 128 0)) 2]) [0..<128]))"
    unfolding drawBars_replicate [OF n] h0 diff_zero by (rule refl)
  have c0: "drawCircle c (replicate 128 0) = Inr (clear_canvas c
     # StrokeArc (Rgba 255 255 255 0.1) 2 (centerX c) (centerY c) (radius c) 0 (pi * 2)
     # map (\<lambda>i. StrokeLine (Hsl (hue i 128) 100 50) 2
           (centerX c + cos (angle i 128) * radius c) (centerY c + sin (angle i 128) * radius c)
           (centerX c + cos (angle i 128) * radius c) (centerY c + sin (angle i 128) * radius c))
         [0..<128]
     @ [FillArc (Rgba 0 255 255 0) (centerX c) (centerY c) 25 0 (pi * 2),
        FillArc (Css ''#00ffff'') (centerX c) (centerY c) 15 0 (pi * 2),
        FillArc (Css ''#ffffff'') (centerX c) (centerY c) 7.5 0 (pi * 2)])"
    unfolding drawCircle_replicate [OF n] f0 l0 g0 a by (rule refl)
  have b1: "drawBars c (replicate 128 255) = Inr (clear_canvas c # concat (map (\<lambda>i.
     [FillRect (Hsl (hue i 128) 100 50) (real i * (barWidth c (replicate 128 255) + 1))
        (real (height c) - real (height c) * 0.8) (barWidth c (replicate 128 255))
        (real (height c) * 0.8),
      FillRect (Hsl (hue i 128) 100 30) (real i * (barWidth c (replicate 128 255) + 1))
        (real (height c) - real (height c) * 0.8 - 2) (barWidth c (replicate 128 255)) 2])
         [0..<128]))"
    unfolding drawBars_replicate [OF n] h1 by (rule refl)
  have c1: "drawCircle c (replicate 128 255) = Inr (clear_canvas c
     # StrokeArc (Rgba 255 255 255 0.1) 2 (centerX c) (centerY c) (radius c) 0 (pi * 2)
     # map (\<lambda>i. StrokeLine (Hsl (hue i 128) 100 70) 5
           (centerX c + cos (angle i 128) * radius c) (centerY c + sin (angle i 128) * radius c)
           (centerX c + cos (angle i 128) * (radius c + maxSpikeLength c))
           (centerY c + sin (angle i 128) * (radius c + maxSpikeLength c)))
         [0..<128]
     @ [FillArc (Rgba 0 255 255 0.3) (centerX c) (centerY c) 35 0 (pi * 2),
        FillArc (Css ''#00ffff'') (centerX c) (centerY c) 25 0 (pi * 2),
        FillArc (Css ''#ffffff'') (centerX c) (centerY c) 12.5 0 (pi * 2)])"
    unfolding drawCircle_replicate [OF n] f1 l1 g1 a by (rule refl)
  from b0 c0 b1 c1 r0 r1 show ?thesis by (intro conjI)
qed

text \<open>
  C7. For every snapshot that is not empty, \<open>drawBars\<close> clears the canvas and then
  paints, for each bin in order, the bar and the cap the specification describes: bars
  of width \<open>width / N * 2.5\<close> placed \<open>width / N * 2.5 + 1\<close> apart, bar \<open>i\<close> of height
  \<open>magnitude[i] / 255 * height * 0.8\<close> standing on the bottom edge, hue \<open>i / N * 360\<close>,
  and a cap 2 units tall on top of it. For 128 bins on a canvas 512 wide the bar
  width is 10.
\<close>

theorem drawBars_refines_spec:
  "dataArray \<noteq> [] \<Longrightarrow>
     drawBars c dataArray
       = Inr (clear_canvas c # concat (map (spec_bar c dataArray) [0..<length dataArray]))
     \<and> (length dataArray = 128 \<and> width c = 512 \<longrightarrow> barWidth c dataArray = 10)"
proof
  assume ne: "dataArray \<noteq> []"
  have "map (bar_cmds c dataArray) [0..<length dataArray]
        = map (spec_bar c dataArray) [0..<length dataArray]"
    by (rule map_cong) (simp_all add: bar_cmds_spec [OF ne])
  then show "drawBars c dataArray
       = Inr (clear_canvas c # concat (map (spec_bar c dataArray) [0..<length dataArray]))"
    unfolding drawBars_upt [OF ne] by (simp only:)
  show "length dataArray = 128 \<and> width c = 512 \<longrightarrow> barWidth c dataArray = 10"
    by (simp add: barWidth_def)
qed

text \<open>The theorem at the snapshot of 128 zeros on a canvas of 512 by 384.\<close>

theorem drawBars_refines_spec_witness:
  "replicate 128 (0::8 word) \<noteq> []
   \<and> length (replicate 128 (0::8 word)) = 128 \<and> width \<lparr>width = 512, height = 384\<rparr> = 512
   \<and> drawBars \<lparr>width = 512, height = 384\<rparr> (replicate 128 0)
       = Inr (clear_canvas \<lparr>width = 512, height = 384\<rparr>
              # concat (map (spec_bar \<lparr>width = 512, height = 384\<rparr> (replicate 128 0))
                  [0..<length (replicate 128 (0::8 word))]))
   \<and> barWidth \<lparr>width = 512, height = 384\<rparr> (replicate 128 0) = 10"
proof -
  have ne: "replicate 128 (0::8 word) \<noteq> []" by simp
  have l: "length (replicate 128 (0::8 word)) = 128" by simp
  have w: "width \<lparr>width = 512, height = 384\<rparr> = 512" by simp
  from drawBars_refines_spec [OF ne, of "\<lparr>width = 512, height = 384\<rparr>"] ne l w
  show ?thesis by blast
qed

text \<open>
  C8 fails when the microphone is asked for a second time while the first request is
  pending. Each of the two continuations of \<open>initializeMicAudioContext\<close> calls \<open>draw\<close>;
  the second does so while the frame of the first loop is scheduled, so two loops run
  and \<open>animationIdRef\<close> names one of them. \<open>stopMicrophone\<close> cancels the frame
  \<open>animationIdRef\<close> names: the page is idle, frame 2 is still scheduled, and when it
  runs it draws and schedules the next one. When every request settles before the next
  event no frame is left after a stop, by \<open>no_frame_after_stop_when_settled\<close>.
\<close>

theorem frame_runs_after_stop:
  "mode_of (run web_audio [StartMicrophone, StartMicrophone, UserMedia (Stream 1),
       UserMedia (Stream 1), StopMicrophone] (mounted example_canvas)) = Idle
   \<and> pendingFrames (run web_audio [StartMicrophone, StartMicrophone, UserMedia (Stream 1),
       UserMedia (Stream 1), StopMicrophone] (mounted example_canvas)) = [2]
   \<and> framesDrawn (run web_audio [StartMicrophone, StartMicrophone, UserMedia (Stream 1),
       UserMedia (Stream 1), StopMicrophone] (mounted example_canvas)) = 3
   \<and> framesDrawn (run web_audio [StartMicrophone, StartMicrophone, UserMedia (Stream 1),
       UserMedia (Stream 1), StopMicrophone, AnimationFrame 2] (mounted example_canvas)) = 4
   \<and> pendingFrames (run web_audio [StartMicrophone, StartMicrophone, UserMedia (Stream 1),
       UserMedia (Stream 1), StopMicrophone, AnimationFrame 2] (mounted example_canvas)) = [4]"
  by code_simp

text \<open>
  C9. \<open>stopMicrophone\<close> and \<open>stopAudioFile\<close> complete on every state and on every
  platform, also one whose \<open>disconnect()\<close> always raises: each \<open>disconnect()\<close> of the
  teardown is inside a \<open>try\<close> whose \<open>catch\<close> only logs. A guarded disconnect of a node
  that has no outgoing connection leaves the state as it is, whether the platform
  raises there or not.
\<close>

theorem stop_never_raises:
  "(\<exists>s'. stopMicrophone p s = Inr s') \<and> (\<exists>s'. stopAudioFile p s = Inr s')
   \<and> (r s = Some n \<and> list_all (\<lambda>c. fst c \<noteq> n) (connections s) \<longrightarrow> try_disconnect p r s = Inr s)"
proof (intro conjI impI)
  show "\<exists>s'. stopMicrophone p s = Inr s'"
    by (simp add: stopMicrophone_Inr)
  show "\<exists>s'. stopAudioFile p s = Inr s'"
    by (simp add: stopAudioFile_Inr)
next
  assume a: "r s = Some n \<and> list_all (\<lambda>c. fst c \<noteq> n) (connections s)"
  then have "filter (\<lambda>c. fst c \<noteq> n) (connections s) = connections s"
    by (simp add: filter_id_conv list_all_iff)
  with a show "try_disconnect p r s = Inr s"
    by (simp add: try_disconnect_Inr disconnected_def)
qed

text \<open>
  The theorem on the platform where every \<open>disconnect()\<close> raises, at the gain node
  after the microphone has been asked for: the node has no connection.
\<close>

theorem stop_never_raises_witness:
  "gainNodeRef (run always_raises [StartMicrophone] (mounted example_canvas)) = Some (Gain 1)
   \<and> list_all (\<lambda>c. fst c \<noteq> Gain 1)
        (connections (run always_raises [StartMicrophone] (mounted example_canvas)))
   \<and> try_disconnect always_raises gainNodeRef
        (run always_raises [StartMicrophone] (mounted example_canvas))
      = Inr (run always_raises [StartMicrophone] (mounted example_canvas))"
proof -
  have h: "gainNodeRef (run always_raises [StartMicrophone] (mounted example_canvas)) = Some (Gain 1)
     \<and> list_all (\<lambda>c. fst c \<noteq> Gain 1)
        (connections (run always_raises [StartMicrophone] (mounted example_canvas)))"
    by code_simp
  with stop_never_raises [of always_raises
      "run always_raises [StartMicrophone] (mounted example_canvas)" gainNodeRef "Gain 1"]
  show ?thesis by blast
qed

text \<open>
  C10. From file mode, with the audio element mounted and no stream held,
  \<open>initializeMicAudioContext\<close> has paused, rewound and detached the audio element when
  it leaves the request for the capture stream pending. When the request is rejected
  the permission is recorded as denied and the page is idle: file mode is not
  restored, and the audio element stays detached.
\<close>

theorem mic_denied_leaves_idle:
  assumes "mode_of s = FileActive" and "micStreamRef s = None" and "audioElementRef s = Some el"
  shows "audioElementRef (dispatch p StartMicrophone s)
           = Some (el\<lparr>el_paused := True, el_currentTime := 0, el_src := []\<rparr>)
     \<and> userMediaRequests (dispatch p StartMicrophone s) = userMediaRequests s + 1
     \<and> userMediaPending (dispatch p StartMicrophone s) = userMediaPending s + 1
     \<and> mode_of (run p [StartMicrophone, UserMedia Rejected] s) = Idle
     \<and> micPermission (run p [StartMicrophone, UserMedia Rejected] s) = Denied
     \<and> audioElementRef (run p [StartMicrophone, UserMedia Rejected] s)
           = Some (el\<lparr>el_paused := True, el_currentTime := 0, el_src := []\<rparr>)"
  using assms
  by (simp add: step_simps mode_of_def detached_def split: if_splits)


text \<open>The theorem in the state reached by loading a file after mounting.\<close>

theorem mic_denied_leaves_idle_witness:
  "mode_of (run web_audio [LoadFile example_file] (mounted example_canvas)) = FileActive
   \<and> micStreamRef (run web_audio [LoadFile example_file] (mounted example_canvas)) = None
   \<and> audioElementRef (run web_audio [LoadFile example_file] (mounted example_canvas))
        = Some \<lparr>el_paused = True, el_currentTime = 0, el_src = ''blob:1''\<rparr>
   \<and> mode_of (run web_audio [StartMicrophone, UserMedia Rejected]
        (run web_audio [LoadFile example_file] (mounted example_canvas))) = Idle
   \<and> micPermission (run web_audio [StartMicrophone, UserMedia Rejected]
        (run web_audio [LoadFile example_file] (mounted example_canvas))) = Denied"
proof -
  have h1: "mode_of (run web_audio [LoadFile example_file] (mounted example_canvas)) = FileActive"
    by code_simp
  have h2: "micStreamRef (run web_audio [LoadFile example_file] (mounted example_canvas)) = None"
    by code_simp
  have h3: "audioElementRef (run web_audio [LoadFile example_file] (mounted example_canvas))
        = Some \<lparr>el_paused = True, el_currentTime = 0, el_src = ''blob:1''\<rparr>"
    by code_simp
  from mic_denied_leaves_idle [OF h1 h2 h3, of web_audio] h1 h2 h3
  show ?thesis by blast
qed

end
